theory Spec2Isabelle
  imports Main "HOL-Library.Sublist"
begin

section \<open>Data model of \<^verbatim>\<open>youtube.py\<close>\<close>

text \<open>
  Raw API payloads are nested JSON values as the client library hands them to the program:
  Python \<^verbatim>\<open>None\<close>, booleans, integers, strings, lists and dictionaries. A dictionary is
  an association list; a lookup takes the first binding of a key. Floating-point numbers do
  not occur in the fields the program reads and are left out. A string is a list of
  characters, and its length is the length of that list.
\<close>

datatype json =
    JNull
  | JBool bool
  | JInt int
  | JStr string
  | JList "json list"
  | JObj "(string \<times> json) list"

text \<open>The exceptions the program can meet, as values.\<close>

datatype error =
    HttpError string
  | KeyError string
  | TypeError
  | AttributeError
  | IndexError
  | ValueError string
  | ValidationError
  | OtherError string

text \<open>
  A \<^verbatim>\<open>datetime\<close> value: the wall-clock fields and \<^verbatim>\<open>tzinfo\<close>, which is
  \<open>None\<close> for a timezone-naive value and otherwise the offset from UTC in microseconds.
\<close>

record datetime =
  dt_year :: nat
  dt_month :: nat
  dt_day :: nat
  dt_hour :: nat
  dt_minute :: nat
  dt_second :: nat
  dt_microsecond :: nat
  tzinfo :: "int option"

text \<open>
  The dictionaries built by \<^verbatim>\<open>_parse_video_response\<close> and
  \<^verbatim>\<open>_parse_comment_response\<close>. The fields copied from the payload without conversion
  hold the raw JSON value; \<^verbatim>\<open>reply_to\<close> is \<open>JNull\<close> for Python's \<^verbatim>\<open>None\<close>.
  The models \<^verbatim>\<open>Video\<close> and \<^verbatim>\<open>Comment\<close> check these dictionaries and dump them
  unchanged, so the same records serve for the validated rows.
\<close>

record video =
  video_id :: json
  title :: json
  description :: json
  published_date :: datetime
  view_count :: int
  like_count :: int
  comment_count :: int
  duration :: json
  thumbnail_url :: json

record comment =
  c_video_id :: json
  comment_id :: json
  c_text :: json
  author :: json
  c_published_date :: datetime
  c_like_count :: int
  reply_to :: json

text \<open>The four requests the program sends, with the parameters that vary.\<close>

datatype request =
    SearchChannels string
  | SearchVideos json json
  | VideosList "string list"
  | CommentThreadsList json int

text \<open>
  What a run leaves behind: every request sent, with a flag telling whether it went through
  \<^verbatim>\<open>rate_limited_api_call\<close> and with the response it got, and every log record of level
  error or warning.
\<close>

datatype event =
    Call bool request "error + json"
  | LogError error
  | LogWarning json error

text \<open>
  The remote service is an oracle over a state of its own, so the same request may be
  answered differently at different times. The library functions the program calls but does
  not define are parameters as well: \<^verbatim>\<open>datetime.fromisoformat\<close>, \<^verbatim>\<open>int\<close> on a string,
  and the \<^verbatim>\<open>HttpUrl\<close> check of pydantic.
\<close>

record 'w env =
  api :: "request \<Rightarrow> 'w \<Rightarrow> (error + json) \<times> 'w"
  fromisoformat :: "string \<Rightarrow> datetime option"
  int_of_str :: "string \<Rightarrow> int option"
  http_url_ok :: "string \<Rightarrow> bool"

record 'w state =
  world :: 'w
  trace :: "event list"

definition UTC_Z :: string where
  "UTC_Z = ''+00:00''"

section \<open>Python primitives on JSON values\<close>

definition getitem :: "json \<Rightarrow> string \<Rightarrow> error + json" where
  \<comment> \<open>\<^verbatim>\<open>x[k]\<close> with a string key\<close>
  "getitem x k =
     (case x of
        JObj kvs \<Rightarrow> (case map_of kvs k of None \<Rightarrow> Inl (KeyError k) | Some v \<Rightarrow> Inr v)
      | _ \<Rightarrow> Inl TypeError)"

definition py_get :: "json \<Rightarrow> string \<Rightarrow> json \<Rightarrow> error + json" where
  \<comment> \<open>\<^verbatim>\<open>x.get(k, d)\<close>: only dictionaries have the method\<close>
  "py_get x k d =
     (case x of
        JObj kvs \<Rightarrow> (case map_of kvs k of None \<Rightarrow> Inr d | Some v \<Rightarrow> Inr v)
      | _ \<Rightarrow> Inl AttributeError)"

definition getitem0 :: "json \<Rightarrow> error + json" where
  \<comment> \<open>\<^verbatim>\<open>x[0]\<close>\<close>
  "getitem0 x =
     (case x of
        JList xs \<Rightarrow> (case xs of [] \<Rightarrow> Inl IndexError | y # _ \<Rightarrow> Inr y)
      | JStr s \<Rightarrow> (case s of [] \<Rightarrow> Inl IndexError | c # _ \<Rightarrow> Inr (JStr [c]))
      | JObj kvs \<Rightarrow> Inl (KeyError ''0'')
      | _ \<Rightarrow> Inl TypeError)"

definition truthy :: "json \<Rightarrow> bool" where
  "truthy x =
     (case x of
        JNull \<Rightarrow> False
      | JBool b \<Rightarrow> b
      | JInt i \<Rightarrow> i \<noteq> 0
      | JStr s \<Rightarrow> s \<noteq> []
      | JList xs \<Rightarrow> xs \<noteq> []
      | JObj kvs \<Rightarrow> kvs \<noteq> [])"

definition py_iter :: "json \<Rightarrow> error + json list" where
  \<comment> \<open>the elements a \<^verbatim>\<open>for\<close> loop over \<open>x\<close> visits\<close>
  "py_iter x =
     (case x of
        JList xs \<Rightarrow> Inr xs
      | JObj kvs \<Rightarrow> Inr (map JStr (remdups (map fst kvs)))
      | JStr s \<Rightarrow> Inr (map (\<lambda>c. JStr [c]) s)
      | _ \<Rightarrow> Inl TypeError)"

definition contains_key :: "string \<Rightarrow> json \<Rightarrow> error + bool" where
  \<comment> \<open>\<^verbatim>\<open>k in x\<close> for a string \<open>k\<close>\<close>
  "contains_key k x =
     (case x of
        JObj kvs \<Rightarrow> Inr (map_of kvs k \<noteq> None)
      | JList xs \<Rightarrow> Inr (JStr k \<in> set xs)
      | JStr s \<Rightarrow> Inr (list_ex (prefix k) (suffixes s))
      | _ \<Rightarrow> Inl TypeError)"

definition py_int :: "'w env \<Rightarrow> json \<Rightarrow> error + int" where
  \<comment> \<open>\<^verbatim>\<open>int(x)\<close>\<close>
  "py_int env x =
     (case x of
        JInt i \<Rightarrow> Inr i
      | JBool b \<Rightarrow> Inr (if b then 1 else 0)
      | JStr s \<Rightarrow> (case int_of_str env s of None \<Rightarrow> Inl (ValueError s) | Some i \<Rightarrow> Inr i)
      | _ \<Rightarrow> Inl TypeError)"

definition replace_char :: "char \<Rightarrow> string \<Rightarrow> string \<Rightarrow> string" where
  \<comment> \<open>\<^verbatim>\<open>s.replace(old, new)\<close> for a pattern of one character\<close>
  "replace_char old new s = concat (map (\<lambda>c. if c = old then new else [c]) s)"

definition parse_timestamp :: "'w env \<Rightarrow> json \<Rightarrow> error + datetime" where
  \<comment> \<open>\<^verbatim>\<open>datetime.fromisoformat(x.replace("Z", UTC_Z))\<close>\<close>
  "parse_timestamp env x =
     (case x of
        JStr s \<Rightarrow>
          (case fromisoformat env (replace_char CHR ''Z'' UTC_Z s) of
             None \<Rightarrow> Inl (ValueError (replace_char CHR ''Z'' UTC_Z s))
           | Some d \<Rightarrow> Inr d)
      | JList xs \<Rightarrow> Inl AttributeError
      | JObj kvs \<Rightarrow> Inl AttributeError
      | JNull \<Rightarrow> Inl AttributeError
      | JInt i \<Rightarrow> Inl AttributeError
      | JBool b \<Rightarrow> Inl AttributeError)"

definition py_slice_to :: "int \<Rightarrow> 'a list \<Rightarrow> 'a list" where
  \<comment> \<open>\<^verbatim>\<open>xs[:n]\<close>: a negative bound counts from the end\<close>
  "py_slice_to n xs =
     (if 0 \<le> n then take (nat n) xs else take (length xs - nat (- n)) xs)"

text \<open>Sequencing of computations that may raise.\<close>

definition bind_err :: "error + 'a \<Rightarrow> ('a \<Rightarrow> error + 'b) \<Rightarrow> error + 'b" where
  "bind_err m f = (case m of Inl e \<Rightarrow> Inl e | Inr x \<Rightarrow> f x)"

section \<open>Sending requests\<close>

definition execute :: "'w env \<Rightarrow> bool \<Rightarrow> request \<Rightarrow> 'w state \<Rightarrow> (error + json) \<times> 'w state" where
  "execute env limited req s =
     (case api env req (world s) of
        (r, w') \<Rightarrow> (r, s\<lparr>world := w', trace := trace s @ [Call limited req r]\<rparr>))"

definition rate_limited_api_call :: "'w env \<Rightarrow> request \<Rightarrow> 'w state \<Rightarrow> (error + json) \<times> 'w state" where
  \<comment> \<open>the decorated function: the call is counted by the limiter, then \<^verbatim>\<open>func()\<close> runs\<close>
  "rate_limited_api_call env req s = execute env True req s"

definition log_event :: "event \<Rightarrow> 'w state \<Rightarrow> 'w state" where
  "log_event ev s = s\<lparr>trace := trace s @ [ev]\<rparr>"

section \<open>Normalisation\<close>

definition parse_video_response :: "'w env \<Rightarrow> json \<Rightarrow> error + video" where
  "parse_video_response env item =
     bind_err (getitem item ''id'') (\<lambda>vid.
     bind_err (getitem item ''snippet'') (\<lambda>sn1.
     bind_err (getitem sn1 ''title'') (\<lambda>ttl.
     bind_err (getitem item ''snippet'') (\<lambda>sn2.
     bind_err (py_get sn2 ''description'' (JStr [])) (\<lambda>descr.
     bind_err (getitem item ''snippet'') (\<lambda>sn3.
     bind_err (getitem sn3 ''publishedAt'') (\<lambda>pa.
     bind_err (parse_timestamp env pa) (\<lambda>pd.
     bind_err (getitem item ''statistics'') (\<lambda>st1.
     bind_err (py_get st1 ''viewCount'' (JInt 0)) (\<lambda>vc.
     bind_err (py_int env vc) (\<lambda>views.
     bind_err (getitem item ''statistics'') (\<lambda>st2.
     bind_err (py_get st2 ''likeCount'' (JInt 0)) (\<lambda>lc.
     bind_err (py_int env lc) (\<lambda>likes.
     bind_err (getitem item ''statistics'') (\<lambda>st3.
     bind_err (py_get st3 ''commentCount'' (JInt 0)) (\<lambda>cc.
     bind_err (py_int env cc) (\<lambda>ncomments.
     bind_err (getitem item ''contentDetails'') (\<lambda>cd.
     bind_err (getitem cd ''duration'') (\<lambda>dur.
     bind_err (getitem item ''snippet'') (\<lambda>sn4.
     bind_err (getitem sn4 ''thumbnails'') (\<lambda>th.
     bind_err (getitem th ''high'') (\<lambda>hi.
     bind_err (getitem hi ''url'') (\<lambda>u.
       Inr \<lparr>video_id = vid, title = ttl, description = descr, published_date = pd,
            view_count = views, like_count = likes, comment_count = ncomments,
            duration = dur, thumbnail_url = u\<rparr>)))))))))))))))))))))))"

definition parse_comment :: "'w env \<Rightarrow> json \<Rightarrow> json \<Rightarrow> json \<Rightarrow> error + json \<Rightarrow> error + comment" where
  \<comment> \<open>the dictionary literal both branches of \<^verbatim>\<open>_parse_comment_response\<close> build, its
      entries evaluated in the order written: \<open>src\<close> carries the \<^verbatim>\<open>id\<close>, \<open>sn\<close> is the
      snippet, \<open>parent\<close> the expression of \<^verbatim>\<open>reply_to\<close>, evaluated last\<close>
  "parse_comment env vid src sn parent =
     bind_err (getitem src ''id'') (\<lambda>cid.
     bind_err (getitem sn ''textDisplay'') (\<lambda>txt.
     bind_err (getitem sn ''authorDisplayName'') (\<lambda>auth.
     bind_err (getitem sn ''publishedAt'') (\<lambda>pa.
     bind_err (parse_timestamp env pa) (\<lambda>pd.
     bind_err (getitem sn ''likeCount'') (\<lambda>lc.
     bind_err (py_int env lc) (\<lambda>likes.
     bind_err parent (\<lambda>p.
       Inr \<lparr>c_video_id = vid, comment_id = cid, c_text = txt, author = auth,
            c_published_date = pd, c_like_count = likes, reply_to = p\<rparr>))))))))"

fun parse_replies :: "'w env \<Rightarrow> json \<Rightarrow> json \<Rightarrow> json list \<Rightarrow> comment list \<Rightarrow> error + comment list" where
  "parse_replies env item vid [] comments = Inr comments"
| "parse_replies env item vid (reply # rest) comments =
     bind_err (getitem reply ''snippet'') (\<lambda>reply_snippet.
     bind_err (parse_comment env vid reply reply_snippet (getitem item ''id'')) (\<lambda>c.
       parse_replies env item vid rest (comments @ [c])))"

definition parse_comment_response :: "'w env \<Rightarrow> json \<Rightarrow> json \<Rightarrow> error + comment list" where
  "parse_comment_response env item vid =
     bind_err (getitem item ''snippet'') (\<lambda>sn.
     bind_err (getitem sn ''topLevelComment'') (\<lambda>tlc.
     bind_err (getitem tlc ''snippet'') (\<lambda>comment.
     bind_err (parse_comment env vid item comment (Inr JNull)) (\<lambda>top.
     bind_err (contains_key ''replies'' item) (\<lambda>has_replies.
       if has_replies then
         bind_err (getitem item ''replies'') (\<lambda>rp.
         bind_err (getitem rp ''comments'') (\<lambda>rc.
         bind_err (py_iter rc) (\<lambda>replies.
           parse_replies env item vid replies [top])))
       else Inr [top])))))"

section \<open>The client: \<^verbatim>\<open>YouTubeAPI\<close>\<close>

fun is_http :: "error \<Rightarrow> bool" where
  "is_http (HttpError m) = True"
| "is_http e = False"

definition get_channel_id :: "'w env \<Rightarrow> string \<Rightarrow> 'w state \<Rightarrow> (error + json) \<times> 'w state" where
  "get_channel_id env handle s =
     (case rate_limited_api_call env (SearchChannels handle) s of
        (Inl e, s1) \<Rightarrow> (Inl e, s1)
      | (Inr response, s1) \<Rightarrow>
          (bind_err (py_get response ''items'' JNull) (\<lambda>found.
             if \<not> truthy found then Inl (ValueError handle)
             else
               bind_err (getitem response ''items'') (\<lambda>items.
               bind_err (getitem0 items) (\<lambda>first.
               bind_err (getitem first ''id'') (\<lambda>i.
                 getitem i ''channelId'')))),
           s1))"

fun video_ids_of :: "json list \<Rightarrow> error + json list" where
  \<comment> \<open>\<^verbatim>\<open>[item["id"]["videoId"] for item in ...]\<close>\<close>
  "video_ids_of [] = Inr []"
| "video_ids_of (item # rest) =
     bind_err (getitem item ''id'') (\<lambda>i.
     bind_err (getitem i ''videoId'') (\<lambda>v.
     bind_err (video_ids_of rest) (\<lambda>vs. Inr (v # vs))))"

definition page_ids :: "json \<Rightarrow> error + json list" where
  "page_ids response =
     bind_err (getitem response ''items'') (\<lambda>its.
     bind_err (py_iter its) video_ids_of)"

definition reraise_logged :: "error \<Rightarrow> 'w state \<Rightarrow> (error + 'a) \<times> 'w state" where
  \<comment> \<open>\<^verbatim>\<open>except HttpError as e: logger.error(...); raise\<close>; any other exception passes\<close>
  "reraise_logged e s = (Inl e, if is_http e then log_event (LogError e) s else s)"

text \<open>
  The \<^verbatim>\<open>while True\<close> loop of \<^verbatim>\<open>get_videos\<close>. Nothing bounds the number of pages, so
  the loop is a partial function: \<open>None\<close> is a run that never returns.
\<close>

partial_function (option) get_videos_loop ::
  "'w env \<Rightarrow> json \<Rightarrow> json \<Rightarrow> json list \<Rightarrow> 'w state \<Rightarrow> ((error + json list) \<times> 'w state) option"
where
  "get_videos_loop env channel_id next_page_token videos s =
     (case rate_limited_api_call env (SearchVideos channel_id next_page_token) s of
        (Inl e, s1) \<Rightarrow> Some (reraise_logged e s1)
      | (Inr response, s1) \<Rightarrow>
          (case page_ids response of
             Inl e \<Rightarrow> Some (reraise_logged e s1)
           | Inr ids \<Rightarrow>
               (case py_get response ''nextPageToken'' JNull of
                  Inl e \<Rightarrow> Some (reraise_logged e s1)
                | Inr tok \<Rightarrow>
                    if \<not> truthy tok then Some (Inr (videos @ ids), s1)
                    else get_videos_loop env channel_id tok (videos @ ids) s1)))"

definition get_videos :: "'w env \<Rightarrow> json \<Rightarrow> 'w state \<Rightarrow> ((error + json list) \<times> 'w state) option" where
  "get_videos env channel_id s = get_videos_loop env channel_id JNull [] s"

fun join_ids :: "json list \<Rightarrow> error + string list" where
  \<comment> \<open>\<^verbatim>\<open>",".join(chunk)\<close> accepts strings only; the request keeps the identifiers apart\<close>
  "join_ids [] = Inr []"
| "join_ids (x # xs) =
     (case x of
        JStr v \<Rightarrow> bind_err (join_ids xs) (\<lambda>vs. Inr (v # vs))
      | _ \<Rightarrow> Inl TypeError)"

fun parse_items :: "'w env \<Rightarrow> json list \<Rightarrow> video list \<Rightarrow> error + video list" where
  "parse_items env [] video_data = Inr video_data"
| "parse_items env (item # rest) video_data =
     bind_err (parse_video_response env item) (\<lambda>v. parse_items env rest (video_data @ [v]))"

definition response_videos :: "'w env \<Rightarrow> json \<Rightarrow> video list \<Rightarrow> error + video list" where
  \<comment> \<open>\<^verbatim>\<open>for item in response["items"]: video_data.append(...)\<close>\<close>
  "response_videos env response video_data =
     bind_err (getitem response ''items'') (\<lambda>its.
     bind_err (py_iter its) (\<lambda>items. parse_items env items video_data))"

function get_video_details_loop ::
  "'w env \<Rightarrow> json list \<Rightarrow> nat \<Rightarrow> video list \<Rightarrow> 'w state \<Rightarrow> (error + video list) \<times> 'w state"
where
  "get_video_details_loop env video_ids i video_data s =
     (if i < length video_ids then
        (case join_ids (take 50 (drop i video_ids)) of
           Inl e \<Rightarrow> (Inl e, s)
         | Inr chunk \<Rightarrow>
             (case execute env False (VideosList chunk) s of
                (Inl e, s1) \<Rightarrow> (Inl e, s1)
              | (Inr response, s1) \<Rightarrow>
                  (case response_videos env response video_data of
                     Inl e \<Rightarrow> (Inl e, s1)
                   | Inr video_data' \<Rightarrow>
                       get_video_details_loop env video_ids (i + 50) video_data' s1)))
      else (Inr video_data, s))"
  by pat_completeness auto
termination
  by (relation "measure (\<lambda>(env, video_ids, i, video_data, s). length video_ids - i)") auto

definition get_video_details :: "'w env \<Rightarrow> json list \<Rightarrow> 'w state \<Rightarrow> (error + video list) \<times> 'w state" where
  "get_video_details env video_ids s = get_video_details_loop env video_ids 0 [] s"

text \<open>
  The loop of \<^verbatim>\<open>get_comments\<close> extends the list \<^verbatim>\<open>comments\<close> in place, so an exception
  leaves what was gathered before it: the loop returns the exception, if any, with the list.
\<close>

fun comments_loop :: "'w env \<Rightarrow> json \<Rightarrow> int \<Rightarrow> json list \<Rightarrow> comment list \<Rightarrow> error option \<times> comment list" where
  "comments_loop env vid max_comments [] comments = (None, comments)"
| "comments_loop env vid max_comments (item # rest) comments =
     (case parse_comment_response env item vid of
        Inl e \<Rightarrow> (Some e, comments)
      | Inr cs \<Rightarrow>
          (if max_comments \<le> int (length (comments @ cs)) then (None, comments @ cs)
           else comments_loop env vid max_comments rest (comments @ cs)))"

definition comments_try :: "'w env \<Rightarrow> json \<Rightarrow> int \<Rightarrow> 'w state \<Rightarrow> (error option \<times> comment list) \<times> 'w state" where
  \<comment> \<open>the body of the \<^verbatim>\<open>try\<close> block\<close>
  "comments_try env vid max_comments s =
     (case execute env False (CommentThreadsList vid (min 100 max_comments)) s of
        (Inl e, s1) \<Rightarrow> ((Some e, []), s1)
      | (Inr response, s1) \<Rightarrow>
          (case bind_err (getitem response ''items'') py_iter of
             Inl e \<Rightarrow> ((Some e, []), s1)
           | Inr items \<Rightarrow> (comments_loop env vid max_comments items [], s1)))"

definition get_comments :: "'w env \<Rightarrow> json \<Rightarrow> int \<Rightarrow> 'w state \<Rightarrow> (error + comment list) \<times> 'w state" where
  "get_comments env vid max_comments s =
     (case comments_try env vid max_comments s of
        ((None, comments), s1) \<Rightarrow> (Inr (py_slice_to max_comments comments), s1)
      | ((Some e, comments), s1) \<Rightarrow>
          (if is_http e then
             (Inr (py_slice_to max_comments comments), log_event (LogWarning vid e) s1)
           else (Inl e, s1)))"

section \<open>Validation: the pydantic models\<close>

definition is_str :: "json \<Rightarrow> bool" where
  "is_str x = (case x of JStr s \<Rightarrow> True | _ \<Rightarrow> False)"

definition is_optional_str :: "json \<Rightarrow> bool" where
  "is_optional_str x = (case x of JStr s \<Rightarrow> True | JNull \<Rightarrow> True | _ \<Rightarrow> False)"

definition is_video_id :: "json \<Rightarrow> bool" where
  \<comment> \<open>\<^verbatim>\<open>str = Field(..., min_length=11, max_length=11)\<close>\<close>
  "is_video_id x = (case x of JStr s \<Rightarrow> 11 \<le> length s \<and> length s \<le> 11 | _ \<Rightarrow> False)"

definition Video :: "video \<Rightarrow> error + video" where
  \<comment> \<open>\<^verbatim>\<open>Video(**v).model_dump()\<close>\<close>
  "Video v =
     (if is_video_id (video_id v) \<and> is_str (title v) \<and> is_optional_str (description v)
         \<and> 0 \<le> view_count v \<and> 0 \<le> like_count v \<and> 0 \<le> comment_count v
         \<and> is_str (duration v) \<and> is_str (thumbnail_url v)
      then Inr v else Inl ValidationError)"

definition Comment :: "comment \<Rightarrow> error + comment" where
  \<comment> \<open>\<^verbatim>\<open>Comment(**c).model_dump()\<close>\<close>
  "Comment c =
     (if is_video_id (c_video_id c) \<and> is_str (comment_id c) \<and> is_str (c_text c)
         \<and> is_str (author c) \<and> 0 \<le> c_like_count c \<and> is_optional_str (reply_to c)
      then Inr c else Inl ValidationError)"

definition YouTubeChannelInput :: "'w env \<Rightarrow> string \<Rightarrow> string \<Rightarrow> error + string" where
  \<comment> \<open>the validated model, of which the program reads the field \<^verbatim>\<open>handle\<close> only\<close>
  "YouTubeChannelInput env url handle =
     (if http_url_ok env url \<and> 1 \<le> length handle then Inr handle else Inl ValidationError)"

section \<open>The assembler: \<^verbatim>\<open>YouTubeDataFetcher.fetch_data\<close>\<close>

fun split_on :: "char \<Rightarrow> string \<Rightarrow> string list" where
  \<comment> \<open>\<^verbatim>\<open>s.split(c)\<close> for a separator of one character\<close>
  "split_on c [] = [[]]"
| "split_on c (x # xs) =
     (if x = c then [] # split_on c xs
      else (case split_on c xs of
              [] \<Rightarrow> [[x]]
            | part # parts \<Rightarrow> (x # part) # parts))"

definition channel_handle :: "string \<Rightarrow> string" where
  \<comment> \<open>\<^verbatim>\<open>channel_url.split("@")[-1]\<close>\<close>
  "channel_handle channel_url = last (split_on CHR ''@'' channel_url)"

fun validate_videos :: "video list \<Rightarrow> error + video list" where
  "validate_videos [] = Inr []"
| "validate_videos (v # vs) =
     bind_err (Video v) (\<lambda>v'. bind_err (validate_videos vs) (\<lambda>vs'. Inr (v' # vs')))"

fun fetch_comments :: "'w env \<Rightarrow> int \<Rightarrow> json list \<Rightarrow> comment list \<Rightarrow> 'w state \<Rightarrow> (error + comment list) \<times> 'w state" where
  \<comment> \<open>\<^verbatim>\<open>for video_id in video_ids: comments_raw.extend(self.api.get_comments(...))\<close>\<close>
  "fetch_comments env max_comments [] comments_raw s = (Inr comments_raw, s)"
| "fetch_comments env max_comments (vid # rest) comments_raw s =
     (case get_comments env vid max_comments s of
        (Inl e, s1) \<Rightarrow> (Inl e, s1)
      | (Inr cs, s1) \<Rightarrow> fetch_comments env max_comments rest (comments_raw @ cs) s1)"

fun comments_data :: "comment list \<Rightarrow> comment list \<Rightarrow> error + comment list" where
  "comments_data [] acc = Inr acc"
| "comments_data (c # cs) acc =
     bind_err (Comment c) (\<lambda>c'.
       comments_data cs
         (acc @ [c'\<lparr>c_published_date := (c_published_date c')\<lparr>tzinfo := None\<rparr>\<rparr>]))"

definition naive_videos :: "video list \<Rightarrow> error + video list" where
  \<comment> \<open>\<^verbatim>\<open>videos["published_date"].apply(...)\<close>: a frame built from no rows has no columns\<close>
  "naive_videos videos =
     (if videos = [] then Inl (KeyError ''published_date'')
      else Inr (map (\<lambda>v. v\<lparr>published_date := (published_date v)\<lparr>tzinfo := None\<rparr>\<rparr>) videos))"

definition fetch_data ::
  "'w env \<Rightarrow> string \<Rightarrow> int \<Rightarrow> 'w state \<Rightarrow> ((error + video list \<times> comment list) \<times> 'w state) option"
where
  "fetch_data env channel_url max_comments s =
     (case YouTubeChannelInput env channel_url (channel_handle channel_url) of
        Inl e \<Rightarrow> Some (Inl e, s)
      | Inr handle \<Rightarrow>
     (case get_channel_id env handle s of
        (Inl e, s1) \<Rightarrow> Some (Inl e, s1)
      | (Inr channel_id, s1) \<Rightarrow>
     (case get_videos env channel_id s1 of
        None \<Rightarrow> None
      | Some (Inl e, s2) \<Rightarrow> Some (Inl e, s2)
      | Some (Inr video_ids, s2) \<Rightarrow>
     (case get_video_details env video_ids s2 of
        (Inl e, s3) \<Rightarrow> Some (Inl e, s3)
      | (Inr videos_raw, s3) \<Rightarrow>
     (case validate_videos videos_raw of
        Inl e \<Rightarrow> Some (Inl e, s3)
      | Inr videos \<Rightarrow>
     (case fetch_comments env max_comments video_ids [] s3 of
        (Inl e, s4) \<Rightarrow> Some (Inl e, s4)
      | (Inr comments_raw, s4) \<Rightarrow>
          Some (bind_err (comments_data comments_raw []) (\<lambda>comments.
                bind_err (naive_videos videos) (\<lambda>videos'.
                  Inr (videos', comments))), s4)))))))"

declare get_videos_loop.simps [code]

section \<open>Notions used to state the properties\<close>

text \<open>The replies a comment-thread item carries, in the order of the payload.\<close>

definition thread_replies :: "json \<Rightarrow> json list" where
  "thread_replies item =
     (case contains_key ''replies'' item of
        Inr True \<Rightarrow>
          (case bind_err (getitem item ''replies'') (\<lambda>rp.
                bind_err (getitem rp ''comments'') py_iter) of
             Inr rs \<Rightarrow> rs
           | Inl e \<Rightarrow> [])
      | _ \<Rightarrow> [])"

text \<open>
  The video item with the counter \<open>k\<close> of its statistics block present and equal to 0
  (the new bindings come first, so they are the ones a lookup finds).
\<close>

definition with_zero_counter :: "string \<Rightarrow> json \<Rightarrow> json" where
  "with_zero_counter k item =
     (case item of
        JObj kvs \<Rightarrow>
          (case map_of kvs ''statistics'' of
             Some (JObj st) \<Rightarrow> JObj ((''statistics'', JObj ((k, JInt 0) # st)) # kvs)
           | _ \<Rightarrow> item)
      | _ \<Rightarrow> item)"

text \<open>
  In a list of comments, every reply comes after a top-level comment whose identifier it
  names.
\<close>

definition parents_before :: "comment list \<Rightarrow> bool" where
  "parents_before cs \<longleftrightarrow>
     (\<forall>i<length cs. reply_to (cs ! i) \<noteq> JNull \<longrightarrow>
        (\<exists>j<i. reply_to (cs ! j) = JNull \<and> comment_id (cs ! j) = reply_to (cs ! i)))"

text \<open>
  \<open>serves env channel_id tok pages s\<close>: from the state \<open>s\<close> and the page token \<open>tok\<close>, the
  service answers the successive page requests of the channel with the given pages, each
  with its video identifiers and a continuation token that Python takes as true. The result
  is the last token and the state after these requests.
\<close>

fun serves :: "'w env \<Rightarrow> json \<Rightarrow> json \<Rightarrow> (json list \<times> json) list \<Rightarrow> 'w state \<Rightarrow> (json \<times> 'w state) option" where
  "serves env channel_id tok [] s = Some (tok, s)"
| "serves env channel_id tok ((ids, next_tok) # pages) s =
     (case rate_limited_api_call env (SearchVideos channel_id tok) s of
        (Inl e, s1) \<Rightarrow> None
      | (Inr response, s1) \<Rightarrow>
          if page_ids response = Inr ids
             \<and> py_get response ''nextPageToken'' JNull = Inr next_tok \<and> truthy next_tok
          then serves env channel_id next_tok pages s1
          else None)"

text \<open>
  The partition of a list into consecutive chunks of at most \<open>n\<close> elements, and the videos
  one details response normalises to.
\<close>

function consecutive_chunks :: "nat \<Rightarrow> 'a list \<Rightarrow> 'a list list" where
  "consecutive_chunks n xs =
     (if n = 0 \<or> xs = [] then [] else take n xs # consecutive_chunks n (drop n xs))"
  by pat_completeness auto
termination
  by (relation "measure (\<lambda>(n, xs). length xs)") auto

definition videos_in :: "'w env \<Rightarrow> json \<Rightarrow> video list" where
  "videos_in env response =
     (case response_videos env response [] of Inr vs \<Rightarrow> vs | Inl e \<Rightarrow> [])"


section \<open>A small service to run the model on\<close>

text \<open>
  Stand-ins for the library functions: decimal digits for \<^verbatim>\<open>int\<close>, and timestamps of the
  shape \<^verbatim>\<open>YYYY-MM-DDTHH:MM:SS+HH:MM\<close> for \<^verbatim>\<open>fromisoformat\<close>.
\<close>

fun digits_value :: "string \<Rightarrow> nat \<Rightarrow> nat option" where
  "digits_value [] acc = Some acc"
| "digits_value (c # cs) acc =
     (if 48 \<le> (of_char c :: nat) \<and> (of_char c :: nat) \<le> 57
      then digits_value cs (10 * acc + (of_char c - 48))
      else None)"

definition demo_int_of_str :: "string \<Rightarrow> int option" where
  "demo_int_of_str s = (if s = [] then None else map_option int (digits_value s 0))"

definition demo_fromisoformat :: "string \<Rightarrow> datetime option" where
  "demo_fromisoformat s =
     (if length s = 25 \<and> map (\<lambda>i. s ! i) [4, 7, 10, 13, 16, 19, 22] = ''--T::+:'' then
        (case map (\<lambda>(i, n). digits_value (take n (drop i s)) 0)
                [(0, 4), (5, 2), (8, 2), (11, 2), (14, 2), (17, 2), (20, 2), (23, 2)] of
           [Some y, Some mo, Some d, Some h, Some mi, Some sec, Some oh, Some om] \<Rightarrow>
             Some \<lparr>dt_year = y, dt_month = mo, dt_day = d, dt_hour = h, dt_minute = mi,
                   dt_second = sec, dt_microsecond = 0,
                   tzinfo = Some (int (oh * 60 + om) * 60000000)\<rparr>
         | _ \<Rightarrow> None)
      else None)"

definition demo_id :: "nat \<Rightarrow> string" where
  "demo_id n = ''video-id-'' @ [char_of (48 + n div 10), char_of (48 + n mod 10)]"

definition search_item :: "nat \<Rightarrow> json" where
  "search_item n = JObj [(''id'', JObj [(''videoId'', JStr (demo_id n))])]"

definition search_page :: "nat list \<Rightarrow> json \<Rightarrow> json" where
  "search_page ns tok =
     JObj ((''items'', JList (map search_item ns)) #
           (if tok = JNull then [] else [(''nextPageToken'', tok)]))"

definition video_item :: "string \<Rightarrow> json" where
  "video_item v =
     JObj [(''id'', JStr v),
           (''snippet'', JObj [(''title'', JStr ''A title''),
                               (''publishedAt'', JStr ''2024-05-01T12:30:00Z''),
                               (''thumbnails'', JObj [(''high'', JObj [(''url'', JStr ''https://i.example/hq.jpg'')])])]),
           (''statistics'', JObj [(''viewCount'', JStr ''1200''), (''commentCount'', JStr ''4'')]),
           (''contentDetails'', JObj [(''duration'', JStr ''PT5M'')])]"

definition comment_snippet :: "string \<Rightarrow> int \<Rightarrow> json" where
  "comment_snippet txt likes =
     JObj [(''textDisplay'', JStr txt), (''authorDisplayName'', JStr ''someone''),
           (''publishedAt'', JStr ''2024-05-02T08:00:00Z''), (''likeCount'', JInt likes)]"

definition demo_reply :: "string \<Rightarrow> json" where
  "demo_reply rid = JObj [(''id'', JStr rid), (''snippet'', comment_snippet ''a reply'' 0)]"

definition demo_thread :: json where
  "demo_thread =
     JObj [(''id'', JStr ''t1''),
           (''snippet'', JObj [(''topLevelComment'', JObj [(''snippet'', comment_snippet ''first'' 3)])]),
           (''replies'', JObj [(''comments'', JList [demo_reply ''t1.a'', demo_reply ''t1.b'', demo_reply ''t1.c''])])]"

definition top_without_likes :: json where
  "top_without_likes =
     JObj [(''textDisplay'', JStr ''hello''), (''authorDisplayName'', JStr ''someone''),
           (''publishedAt'', JStr ''2024-05-02T08:00:00Z'')]"

definition thread_without_likes :: json where
  "thread_without_likes =
     JObj [(''id'', JStr ''t2''),
           (''snippet'', JObj [(''topLevelComment'', JObj [(''snippet'', top_without_likes)])])]"

definition thread_with_zero_likes :: json where
  "thread_with_zero_likes =
     JObj [(''id'', JStr ''t2''),
           (''snippet'', JObj [(''topLevelComment'', JObj [(''snippet'', comment_snippet ''hello'' 0)])])]"

definition thread_reply_without_likes :: json where
  "thread_reply_without_likes =
     JObj [(''id'', JStr ''t3''),
           (''snippet'', JObj [(''topLevelComment'', JObj [(''snippet'', comment_snippet ''third'' 1)])]),
           (''replies'', JObj [(''comments'',
              JList [demo_reply ''t3.a'',
                     JObj [(''id'', JStr ''t3.b''), (''snippet'', top_without_likes)]])])]"

definition demo_comments_response :: json where
  "demo_comments_response = JObj [(''items'', JList [demo_thread, thread_without_likes])]"

definition demo_comment :: "string \<Rightarrow> string \<Rightarrow> int \<Rightarrow> json \<Rightarrow> int option \<Rightarrow> comment" where
  "demo_comment cid txt likes parent tz =
     \<lparr>c_video_id = JStr (demo_id 1), comment_id = JStr cid, c_text = JStr txt,
      author = JStr ''someone'',
      c_published_date = \<lparr>dt_year = 2024, dt_month = 5, dt_day = 2, dt_hour = 8, dt_minute = 0,
                          dt_second = 0, dt_microsecond = 0, tzinfo = tz\<rparr>,
      c_like_count = likes, reply_to = parent\<rparr>"

definition demo_thread_comments :: "int option \<Rightarrow> comment list" where
  "demo_thread_comments tz =
     [demo_comment ''t1'' ''first'' 3 JNull tz,
      demo_comment ''t1.a'' ''a reply'' 0 (JStr ''t1'') tz,
      demo_comment ''t1.b'' ''a reply'' 0 (JStr ''t1'') tz,
      demo_comment ''t1.c'' ''a reply'' 0 (JStr ''t1'') tz]"

definition demo_video :: "nat \<Rightarrow> int option \<Rightarrow> video" where
  "demo_video n tz =
     \<lparr>video_id = JStr (demo_id n), title = JStr ''A title'', description = JStr [],
      published_date = \<lparr>dt_year = 2024, dt_month = 5, dt_day = 1, dt_hour = 12, dt_minute = 30,
                        dt_second = 0, dt_microsecond = 0, tzinfo = tz\<rparr>,
      view_count = 1200, like_count = 0, comment_count = 4,
      duration = JStr ''PT5M'', thumbnail_url = JStr ''https://i.example/hq.jpg''\<rparr>"

text \<open>
  The service knows one channel by name, serves the videos of three channels in pages, gives
  the details of the first two videos of a batch, and has the comments of the first video
  disabled.
\<close>

definition demo_api :: "request \<Rightarrow> nat \<Rightarrow> (error + json) \<times> nat" where
  "demo_api req w =
     (case req of
        SearchChannels q \<Rightarrow>
          if q = ''demo'' then Inr (JObj [(''items'', JList [JObj [(''id'', JObj [(''channelId'', JStr ''UCdemo'')])]])])
          else Inr (JObj [(''items'', JList [])])
      | SearchVideos ch tok \<Rightarrow>
          if ch = JStr ''UCdemo'' then
            (if tok = JNull then Inr (search_page [0] (JStr ''P2''))
             else Inr (search_page [1] JNull))
          else if ch = JStr ''UCbig'' then
            (if tok = JNull then Inr (search_page [0..<50] (JStr ''P2''))
             else Inr (search_page [50..<80] JNull))
          else
            (if tok = JNull then Inr (search_page [0, 1] (JStr ''P2''))
             else Inl (HttpError ''backendError''))
      | VideosList ids \<Rightarrow> Inr (JObj [(''items'', JList (map video_item (take 2 ids)))])
      | CommentThreadsList vid n \<Rightarrow>
          if vid = JStr (demo_id 0) then Inl (HttpError ''commentsDisabled'')
          else Inr demo_comments_response,
      Suc w)"

definition demo_env :: "nat env" where
  "demo_env = \<lparr>api = demo_api, fromisoformat = demo_fromisoformat,
                int_of_str = demo_int_of_str, http_url_ok = prefix ''https://''\<rparr>"

definition s0 :: "nat state" where
  "s0 = \<lparr>world = 0, trace = []\<rparr>"

text \<open>The first \<open>n\<close> video identifiers of the small service, and the sizes of the batches
  that the details requests of a trace name.\<close>

definition demo_ids :: "nat \<Rightarrow> json list" where
  "demo_ids n = map (\<lambda>k. JStr (demo_id k)) [0..<n]"

definition requested_sizes :: "event list \<Rightarrow> nat list" where
  "requested_sizes evs =
     concat (map (\<lambda>ev. case ev of Call b (VideosList c) r \<Rightarrow> [length c] | _ \<Rightarrow> []) evs)"


section \<open>Basic facts\<close>

lemma bind_err_Inr_iff: "bind_err m f = Inr y \<longleftrightarrow> (\<exists>x. m = Inr x \<and> f x = Inr y)"
  by (cases m) (simp_all add: bind_err_def)

lemma bind_err_simps [simp]: "bind_err (Inl e) f = Inl e" "bind_err (Inr x) f = f x"
  by (simp_all add: bind_err_def)

lemma py_slice_to_Nil [simp]: "py_slice_to m [] = []"
  by (simp add: py_slice_to_def)

lemma py_get_absent: "map_of st k = None \<Longrightarrow> py_get (JObj st) k d = Inr d"
  by (simp add: py_get_def)

lemma video_defaults:
  assumes "parse_video_response env item = Inr v"
    and "getitem item ''statistics'' = Inr (JObj st)"
  shows "(map_of st ''viewCount'' = None \<longrightarrow> view_count v = 0)
       \<and> (map_of st ''likeCount'' = None \<longrightarrow> like_count v = 0)
       \<and> (map_of st ''commentCount'' = None \<longrightarrow> comment_count v = 0)"
  using assms
  by (auto simp: parse_video_response_def bind_err_Inr_iff py_get_absent py_int_def)

lemma parse_comment_needs_likes:
  "parse_comment env vid src (JObj c) parent = Inr x \<Longrightarrow> map_of c ''likeCount'' \<noteq> None"
  by (auto simp: parse_comment_def bind_err_Inr_iff getitem_def split: option.splits)

lemma comment_without_likes:
  assumes "getitem item ''snippet'' = Inr sn" "getitem sn ''topLevelComment'' = Inr tlc"
    and "getitem tlc ''snippet'' = Inr (JObj c)" "map_of c ''likeCount'' = None"
  shows "\<exists>e. parse_comment_response env item vid = Inl e"
proof (cases "parse_comment_response env item vid")
  case (Inl e)
  then show ?thesis by blast
next
  case (Inr cs)
  with assms(1-3) obtain x where "parse_comment env vid item (JObj c) (Inr JNull) = Inr x"
    by (auto simp: parse_comment_response_def bind_err_Inr_iff)
  with assms(4) show ?thesis
    by (auto dest: parse_comment_needs_likes)
qed


section \<open>Timestamps and the channel handle\<close>

lemma replace_char_append: "replace_char c new (s @ t) = replace_char c new s @ replace_char c new t"
  by (simp add: replace_char_def)

lemma replace_Z_suffix:
  "replace_char CHR ''Z'' UTC_Z (t @ ''Z'') = replace_char CHR ''Z'' UTC_Z (t @ ''+00:00'')"
  by (simp add: replace_char_append) (simp add: replace_char_def UTC_Z_def)

lemma parse_timestamp_Z: "parse_timestamp env (JStr (t @ ''Z'')) = parse_timestamp env (JStr (t @ ''+00:00''))"
  unfolding parse_timestamp_def json.case replace_Z_suffix ..

lemma split_on_ne [simp]: "split_on c s \<noteq> []"
  by (induction s) (auto split: list.splits)

lemma split_on_no_sep: "c \<notin> set s \<Longrightarrow> split_on c s = [s]"
  by (induction s) (auto split: list.splits)

lemma split_on_last:
  "c \<notin> set (last (split_on c s)) \<and>
   (if c \<in> set s then tl (split_on c s) \<noteq> [] \<and> (\<exists>pre. s = pre @ c # last (split_on c s))
    else split_on c s = [s])"
proof (induction s)
  case Nil
  then show ?case by simp
next
  case (Cons x xs)
  obtain y ys where sp: "split_on c xs = y # ys"
    by (cases "split_on c xs") auto
  show ?case
  proof (cases "x = c")
    case True
    with Cons sp show ?thesis
      by (auto split: if_splits intro: exI [of _ "[]"] exI [of _ "c # pre" for pre])
  next
    case False
    with Cons sp show ?thesis
      by (auto split: if_splits intro: exI [of _ "x # pre" for pre])
  qed
qed

section \<open>Comment threads\<close>

lemma parse_comment_Inr:
  "parse_comment env vid src sn parent = Inr c \<Longrightarrow>
     parent = Inr (reply_to c) \<and> getitem src ''id'' = Inr (comment_id c) \<and> c_video_id c = vid"
  by (auto simp: parse_comment_def bind_err_Inr_iff)

lemma parse_replies_Inr:
  "parse_replies env item vid rs acc = Inr cs \<Longrightarrow>
     \<exists>new. cs = acc @ new \<and> length new = length rs
       \<and> (\<forall>r\<in>set new. getitem item ''id'' = Inr (reply_to r))
       \<and> map (\<lambda>r. Inr (comment_id r)) new = map (\<lambda>r. getitem r ''id'') rs"
proof (induction rs arbitrary: acc)
  case Nil
  then show ?case by simp
next
  case (Cons r rs)
  from Cons.prems obtain sn c where
    c: "parse_comment env vid r sn (getitem item ''id'') = Inr c"
    and rest: "parse_replies env item vid rs (acc @ [c]) = Inr cs"
    by (auto simp: bind_err_Inr_iff)
  from Cons.IH [OF rest] obtain new where new: "cs = (acc @ [c]) @ new" "length new = length rs"
    "\<forall>r\<in>set new. getitem item ''id'' = Inr (reply_to r)"
    "map (\<lambda>r. Inr (comment_id r)) new = map (\<lambda>r. getitem r ''id'') rs"
    by blast
  from c have "getitem item ''id'' = Inr (reply_to c)" "getitem r ''id'' = Inr (comment_id c)"
    by (auto dest: parse_comment_Inr)
  with new c show ?case
    by (intro exI [of _ "c # new"]) simp
qed

lemma parse_comment_response_Inr:
  assumes "parse_comment_response env item vid = Inr cs"
  shows "\<exists>top replies. cs = top # replies \<and> reply_to top = JNull
     \<and> getitem item ''id'' = Inr (comment_id top)
     \<and> c_video_id top = vid
     \<and> length replies = length (thread_replies item)
     \<and> (\<forall>r\<in>set replies. reply_to r = comment_id top)
     \<and> map (\<lambda>r. Inr (comment_id r)) replies = map (\<lambda>r. getitem r ''id'') (thread_replies item)"
proof -
  from assms obtain sn tlc csn top has where
    top: "parse_comment env vid item csn (Inr JNull) = Inr top"
    and has: "contains_key ''replies'' item = Inr has"
    and rest: "(if has then
         bind_err (getitem item ''replies'') (\<lambda>rp.
         bind_err (getitem rp ''comments'') (\<lambda>rc.
         bind_err (py_iter rc) (\<lambda>replies.
           parse_replies env item vid replies [top])))
       else Inr [top]) = Inr cs"
    unfolding parse_comment_response_def bind_err_Inr_iff by blast
  note t = parse_comment_Inr [OF top]
  show ?thesis
  proof (cases has)
    case False
    with rest has t show ?thesis
      by (auto simp: thread_replies_def)
  next
    case True
    with rest obtain rp rc rs where
      rs: "getitem item ''replies'' = Inr rp" "getitem rp ''comments'' = Inr rc" "py_iter rc = Inr rs"
      and pr: "parse_replies env item vid rs [top] = Inr cs"
      by (auto simp: bind_err_Inr_iff)
    from True has rs have tr: "thread_replies item = rs"
      by (simp add: thread_replies_def)
    from parse_replies_Inr [OF pr] obtain new where new: "cs = [top] @ new" "length new = length rs"
      "\<forall>r\<in>set new. getitem item ''id'' = Inr (reply_to r)"
      "map (\<lambda>r. Inr (comment_id r)) new = map (\<lambda>r. getitem r ''id'') rs"
      by blast
    with t tr show ?thesis
      by auto
  qed
qed

section \<open>The comments of one video\<close>

lemma parents_before_Nil [simp]: "parents_before []"
  by (simp add: parents_before_def)

lemma parents_before_append:
  assumes "parents_before xs" "parents_before ys"
  shows "parents_before (xs @ ys)"
  unfolding parents_before_def
proof (intro allI impI)
  fix i assume i: "i < length (xs @ ys)" and r: "reply_to ((xs @ ys) ! i) \<noteq> JNull"
  show "\<exists>j<i. reply_to ((xs @ ys) ! j) = JNull \<and> comment_id ((xs @ ys) ! j) = reply_to ((xs @ ys) ! i)"
  proof (cases "i < length xs")
    case True
    with r assms(1) obtain j where "j < i" "reply_to (xs ! j) = JNull" "comment_id (xs ! j) = reply_to (xs ! i)"
      by (auto simp: parents_before_def nth_append)
    with True show ?thesis
      by (intro exI [of _ j]) (simp add: nth_append)
  next
    case False
    with i have k: "i - length xs < length ys" by simp
    from False r have "reply_to (ys ! (i - length xs)) \<noteq> JNull"
      by (simp add: nth_append)
    with k assms(2) obtain j where j: "j < i - length xs" "reply_to (ys ! j) = JNull"
      "comment_id (ys ! j) = reply_to (ys ! (i - length xs))"
      unfolding parents_before_def by blast
    with False show ?thesis
      by (intro exI [of _ "length xs + j"]) (auto simp: nth_append)
  qed
qed

lemma parents_before_take: "parents_before xs \<Longrightarrow> parents_before (take n xs)"
  unfolding parents_before_def
proof (intro allI impI)
  fix i
  assume a: "\<forall>i<length xs. reply_to (xs ! i) \<noteq> JNull \<longrightarrow>
        (\<exists>j<i. reply_to (xs ! j) = JNull \<and> comment_id (xs ! j) = reply_to (xs ! i))"
    and i: "i < length (take n xs)" and r: "reply_to (take n xs ! i) \<noteq> JNull"
  from i have i': "i < length xs" "i < n" by simp_all
  with a r obtain j where "j < i" "reply_to (xs ! j) = JNull" "comment_id (xs ! j) = reply_to (xs ! i)"
    by auto
  with i' show "\<exists>j<i. reply_to (take n xs ! j) = JNull \<and> comment_id (take n xs ! j) = reply_to (take n xs ! i)"
    by (intro exI [of _ j]) simp
qed

lemma parents_before_slice: "parents_before xs \<Longrightarrow> parents_before (py_slice_to m xs)"
  by (simp add: py_slice_to_def parents_before_take)

lemma parents_before_thread:
  assumes "reply_to t0 = JNull" "\<forall>r\<in>set replies. reply_to r = comment_id t0"
  shows "parents_before (t0 # replies)"
  unfolding parents_before_def
proof (intro allI impI)
  fix i assume i: "i < length (t0 # replies)" and r: "reply_to ((t0 # replies) ! i) \<noteq> JNull"
  with assms(1) obtain k where k: "i = Suc k" "k < length replies"
    by (cases i) auto
  with assms(2) have "reply_to (replies ! k) = comment_id t0"
    by simp
  with k assms(1) show "\<exists>j<i. reply_to ((t0 # replies) ! j) = JNull
      \<and> comment_id ((t0 # replies) ! j) = reply_to ((t0 # replies) ! i)"
    by (intro exI [of _ 0]) simp
qed

lemma parents_before_parse:
  "parse_comment_response env item vid = Inr cs \<Longrightarrow> parents_before cs"
  by (drule parse_comment_response_Inr) (auto intro: parents_before_thread)

lemma parents_before_loop:
  "parents_before acc \<Longrightarrow> parents_before (snd (comments_loop env vid m items acc))"
proof (induction items arbitrary: acc)
  case Nil
  then show ?case by simp
next
  case (Cons item rest)
  show ?case
  proof (cases "parse_comment_response env item vid")
    case (Inl e)
    with Cons.prems show ?thesis by simp
  next
    case (Inr cs)
    with Cons.prems have "parents_before (acc @ cs)"
      by (simp add: parents_before_append parents_before_parse)
    with Inr Cons.IH [of "acc @ cs"] show ?thesis
      by simp
  qed
qed

lemma parents_before_try:
  "parents_before (snd (fst (comments_try env vid m s)))"
  by (auto simp: comments_try_def parents_before_loop split: prod.splits sum.splits)

lemma get_comments_parents:
  "fst (get_comments env vid m s) = Inr cs \<Longrightarrow> parents_before cs"
  using parents_before_try [of env vid m s]
  by (auto simp: get_comments_def parents_before_slice split: prod.splits option.splits if_splits)

lemma get_comments_length:
  "0 < m \<Longrightarrow> fst (get_comments env vid m s) = Inr cs \<Longrightarrow> int (length cs) \<le> m"
  by (auto simp: get_comments_def py_slice_to_def split: prod.splits option.splits if_splits)

lemma get_comments_first_thread:
  assumes "api env (CommentThreadsList vid (min 100 m)) (world s) = (Inr response, w')"
    and "bind_err (getitem response ''items'') py_iter = Inr (item # rest)"
    and "parse_comment_response env item vid = Inr cs"
    and "0 < m" "m \<le> int (length cs)"
  shows "fst (get_comments env vid m s) = Inr (take (nat m) cs)"
  using assms
  by (simp add: get_comments_def comments_try_def execute_def py_slice_to_def)

lemma get_comments_http_error:
  assumes "api env (CommentThreadsList vid (min 100 m)) (world s) = (Inl (HttpError msg), w')"
  shows "get_comments env vid m s =
     (Inr [], s\<lparr>world := w', trace := trace s @
        [Call False (CommentThreadsList vid (min 100 m)) (Inl (HttpError msg)),
         LogWarning vid (HttpError msg)]\<rparr>)"
  using assms
  by (simp add: get_comments_def comments_try_def execute_def log_event_def)

lemma get_comments_no_http_error:
  "fst (get_comments env vid m s) = Inl e \<Longrightarrow> \<not> is_http e"
  by (auto simp: get_comments_def split: prod.splits option.splits if_splits)

section \<open>Paging through the videos of a channel\<close>

lemma get_videos_loop_pages:
  "serves env ch tok pages s = Some (tok', s') \<Longrightarrow>
     get_videos_loop env ch tok acc s = get_videos_loop env ch tok' (acc @ concat (map fst pages)) s'"
proof (induction pages arbitrary: tok acc s)
  case Nil
  then show ?case by simp
next
  case (Cons p pages)
  obtain ids next_tok where p: "p = (ids, next_tok)" by (cases p)
  obtain r s1 where call: "rate_limited_api_call env (SearchVideos ch tok) s = (r, s1)"
    by (cases "rate_limited_api_call env (SearchVideos ch tok) s")
  from Cons.prems p call obtain response where resp: "r = Inr response"
    "page_ids response = Inr ids" "py_get response ''nextPageToken'' JNull = Inr next_tok"
    "truthy next_tok" and rest: "serves env ch next_tok pages s1 = Some (tok', s')"
    by (cases r) (auto split: if_splits)
  have "get_videos_loop env ch tok acc s = get_videos_loop env ch next_tok (acc @ ids) s1"
    by (subst get_videos_loop.simps) (simp add: call resp)
  also have "\<dots> = get_videos_loop env ch tok' ((acc @ ids) @ concat (map fst pages)) s'"
    by (rule Cons.IH [OF rest])
  finally show ?case by (simp add: p)
qed

lemma get_videos_loop_last:
  assumes "rate_limited_api_call env (SearchVideos ch tok) s = (Inr response, s1)"
    and "page_ids response = Inr ids"
    and "py_get response ''nextPageToken'' JNull = Inr last_tok" "\<not> truthy last_tok"
  shows "get_videos_loop env ch tok acc s = Some (Inr (acc @ ids), s1)"
  by (subst get_videos_loop.simps) (simp add: assms)

lemma get_videos_loop_fails:
  assumes "rate_limited_api_call env (SearchVideos ch tok) s = (Inl e, s1)"
  shows "get_videos_loop env ch tok acc s = Some (reraise_logged e s1)"
  by (subst get_videos_loop.simps) (simp add: assms)

lemma get_videos_pages:
  assumes "serves env ch JNull pages s = Some (tok, s1)"
    and "rate_limited_api_call env (SearchVideos ch tok) s1 = (Inr response, s2)"
    and "page_ids response = Inr ids"
    and "py_get response ''nextPageToken'' JNull = Inr last_tok" "\<not> truthy last_tok"
  shows "get_videos env ch s = Some (Inr (concat (map fst pages) @ ids), s2)"
  unfolding get_videos_def
  by (simp add: get_videos_loop_pages [OF assms(1)] get_videos_loop_last [OF assms(2-5)])

lemma get_videos_aborts:
  assumes "serves env ch JNull pages s = Some (tok, s1)"
    and "api env (SearchVideos ch tok) (world s1) = (Inl e, w2)"
  shows "get_videos env ch s =
     Some (Inl e, s1\<lparr>world := w2, trace := trace s1 @
        Call True (SearchVideos ch tok) (Inl e) # (if is_http e then [LogError e] else [])\<rparr>)"
proof -
  from assms(2) have "rate_limited_api_call env (SearchVideos ch tok) s1 =
      (Inl e, s1\<lparr>world := w2, trace := trace s1 @ [Call True (SearchVideos ch tok) (Inl e)]\<rparr>)"
    by (simp add: rate_limited_api_call_def execute_def)
  from get_videos_loop_fails [OF this] show ?thesis
    unfolding get_videos_def
    by (simp add: get_videos_loop_pages [OF assms(1)] reraise_logged_def log_event_def)
qed

section \<open>Batches of the details request\<close>

declare consecutive_chunks.simps [simp del]

lemma concat_consecutive_chunks: "0 < n \<Longrightarrow> concat (consecutive_chunks n xs) = xs"
  by (induction n xs rule: consecutive_chunks.induct) (subst consecutive_chunks.simps, simp)

lemma consecutive_chunks_bound: "c \<in> set (consecutive_chunks n xs) \<Longrightarrow> length c \<le> n \<and> c \<noteq> []"
proof (induction n xs rule: consecutive_chunks.induct)
  case (1 n xs)
  from "1.prems" have ne: "\<not> (n = 0 \<or> xs = [])"
    by (subst (asm) consecutive_chunks.simps) (auto split: if_splits)
  with "1.prems" have "c = take n xs \<or> c \<in> set (consecutive_chunks n (drop n xs))"
    by (subst (asm) consecutive_chunks.simps) simp
  with ne "1.IH" show ?case by auto
qed

lemma length_consecutive_chunks:
  "0 < n \<Longrightarrow> length (consecutive_chunks n xs) = (length xs + n - 1) div n"
proof (induction n xs rule: consecutive_chunks.induct)
  case (1 n xs)
  show ?case
  proof (cases "xs = []")
    case True
    with "1.prems" show ?thesis
      by (subst consecutive_chunks.simps) simp
  next
    case False
    with "1.prems" have ih: "length (consecutive_chunks n (drop n xs)) = (length (drop n xs) + n - 1) div n"
      by (intro "1.IH") auto
    have "length (consecutive_chunks n xs) = Suc ((length xs - n + n - 1) div n)"
      using False "1.prems" ih by (subst consecutive_chunks.simps) simp
    also have "\<dots> = (length xs + n - 1) div n"
    proof (cases "n \<le> length xs")
      case True
      with "1.prems" have a: "length xs - n + n - 1 = length xs - 1"
        and b: "length xs + n - 1 = (length xs - 1) + n"
        by simp_all
      from "1.prems" div_add_self2 [of n "length xs - 1"]
      have "(length xs - 1 + n) div n = Suc ((length xs - 1) div n)"
        by simp
      then show ?thesis
        by (simp only: a b)
    next
      case F: False
      with False have "0 < length xs" "length xs < n" by auto
      then have "(length xs + n - 1) div n = 1"
        by (intro div_nat_eqI) (auto simp del: length_greater_0_conv)
      moreover from F have "(length xs - n + n - 1) div n = 0" by simp
      ultimately show ?thesis by simp
    qed
    finally show ?thesis .
  qed
qed

lemma join_ids_Inr: "join_ids xs = Inr strs \<Longrightarrow> xs = map JStr strs"
  by (induction xs arbitrary: strs) (auto simp: bind_err_Inr_iff split: json.splits)

lemma parse_items_acc:
  "parse_items env items acc =
     (case parse_items env items [] of Inl e \<Rightarrow> Inl e | Inr new \<Rightarrow> Inr (acc @ new))"
proof (induction items arbitrary: acc)
  case Nil
  then show ?case by simp
next
  case (Cons item items)
  show ?case
  proof (cases "parse_video_response env item")
    case (Inl e)
    then show ?thesis by simp
  next
    case (Inr v)
    then show ?thesis
      by (simp add: Cons.IH [of "acc @ [v]"] Cons.IH [of "[v]"] split: sum.splits)
  qed
qed

lemma response_videos_acc:
  "response_videos env response acc = Inr v \<Longrightarrow> v = acc @ videos_in env response"
proof -
  assume a: "response_videos env response acc = Inr v"
  then obtain its items where i: "getitem response ''items'' = Inr its" "py_iter its = Inr items"
    and p: "parse_items env items acc = Inr v"
    by (auto simp: response_videos_def bind_err_Inr_iff)
  from p obtain new where "parse_items env items [] = Inr new" "v = acc @ new"
    by (subst (asm) parse_items_acc) (auto split: sum.splits)
  with i show ?thesis
    by (simp add: videos_in_def response_videos_def)
qed

lemma join_ids_length: "join_ids xs = Inr strs \<Longrightarrow> length strs = length xs"
  by (auto dest: join_ids_Inr)

lemma get_video_details_loop_Inr:
  "get_video_details_loop env video_ids i acc s = (Inr vs, s') \<Longrightarrow>
     \<exists>strs rs. drop i video_ids = map JStr strs
        \<and> length rs = length (consecutive_chunks 50 strs)
        \<and> trace s' = trace s @
             map (\<lambda>(c, r). Call False (VideosList c) (Inr r)) (zip (consecutive_chunks 50 strs) rs)
        \<and> vs = acc @ concat (map (videos_in env) rs)"
proof (induction env video_ids i acc s rule: get_video_details_loop.induct)
  case (1 env video_ids i video_data s)
  show ?case
  proof (cases "i < length video_ids")
    case False
    with "1.prems" have "vs = video_data" "s' = s"
      by (simp_all add: get_video_details_loop.simps [of env video_ids i])
    with False show ?thesis
      by (intro exI [of _ "[]"]) (simp add: consecutive_chunks.simps)
  next
    case True
    from True "1.prems" obtain chunk where chunk: "join_ids (take 50 (drop i video_ids)) = Inr chunk"
      by (subst (asm) get_video_details_loop.simps) (auto split: sum.splits)
    obtain r s1 where ex: "execute env False (VideosList chunk) s = (r, s1)"
      by (cases "execute env False (VideosList chunk) s")
    with True chunk "1.prems" obtain response where r: "r = Inr response"
      by (subst (asm) get_video_details_loop.simps) (auto split: sum.splits)
    from True chunk ex r "1.prems" obtain vd where vd: "response_videos env response video_data = Inr vd"
      by (subst (asm) get_video_details_loop.simps) (auto split: sum.splits)
    from True chunk ex r vd "1.prems" have rest: "get_video_details_loop env video_ids (i + 50) vd s1 = (Inr vs, s')"
      by (subst (asm) get_video_details_loop.simps) simp
    from "1.IH" [OF True chunk ex [symmetric] r vd rest] obtain strs rs where
      ih: "drop (i + 50) video_ids = map JStr strs"
        "length rs = length (consecutive_chunks 50 strs)"
        "trace s' = trace s1 @
             map (\<lambda>(c, r). Call False (VideosList c) (Inr r)) (zip (consecutive_chunks 50 strs) rs)"
        "vs = vd @ concat (map (videos_in env) rs)"
      by auto
    from ex r have tr: "trace s1 = trace s @ [Call False (VideosList chunk) (Inr response)]"
      by (auto simp: execute_def split: prod.splits)
    from chunk have ch: "take 50 (drop i video_ids) = map JStr chunk"
      by (rule join_ids_Inr)
    have d: "drop i video_ids = map JStr (chunk @ strs)"
    proof -
      have "drop i video_ids = take 50 (drop i video_ids) @ drop 50 (drop i video_ids)"
        by (simp only: append_take_drop_id)
      also have "drop 50 (drop i video_ids) = drop (i + 50) video_ids"
        by (simp add: add.commute)
      finally show ?thesis using ch ih(1) by simp
    qed
    from ch have lc: "length chunk = min 50 (length video_ids - i)"
      by (metis length_map length_take length_drop min.commute)
    from ih(1) have ls: "length strs = length video_ids - (i + 50)"
      by (metis length_map length_drop)
    from lc ls have t: "take 50 (chunk @ strs) = chunk"
      by (cases "50 \<le> length video_ids - i") auto
    from lc ls have dr: "drop 50 (chunk @ strs) = strs"
      by (cases "50 \<le> length video_ids - i") auto
    from True ch have ne: "chunk \<noteq> []"
      by auto
    have cc: "consecutive_chunks 50 (chunk @ strs) = chunk # consecutive_chunks 50 strs"
      using ne by (subst consecutive_chunks.simps) (simp only: t dr, simp)
    from vd have v: "vd = video_data @ videos_in env response"
      by (rule response_videos_acc)
    show ?thesis
      using d cc ih tr v
      by (intro exI [of _ "chunk @ strs"] exI [of _ "response # rs"]) simp
  qed
qed

lemma join_ids_take_length: "join_ids (take 50 xs) = Inr chunk \<Longrightarrow> length chunk \<le> 50"
  by (drule join_ids_length) simp

lemma get_video_details_loop_requests:
  "Call b (VideosList c) r \<in> set (trace (snd (get_video_details_loop env video_ids i acc s))) \<Longrightarrow>
     Call b (VideosList c) r \<in> set (trace s) \<or> (\<not> b \<and> length c \<le> 50)"
proof (induction env video_ids i acc s rule: get_video_details_loop.induct)
  case (1 env video_ids i video_data s)
  show ?case
  proof (cases "i < length video_ids")
    case False
    with "1.prems" show ?thesis
      by (simp add: get_video_details_loop.simps [of env video_ids i])
  next
    case True
    show ?thesis
    proof (cases "join_ids (take 50 (drop i video_ids))")
      case (Inl e)
      with True "1.prems" show ?thesis
        by (simp add: get_video_details_loop.simps [of env video_ids i])
    next
      case (Inr chunk)
      obtain x s1 where ex: "execute env False (VideosList chunk) s = (x, s1)"
        by (cases "execute env False (VideosList chunk) s")
      then have tr: "trace s1 = trace s @ [Call False (VideosList chunk) x]"
        by (auto simp: execute_def split: prod.splits)
      from Inr have len: "length chunk \<le> 50"
        by (rule join_ids_take_length)
      show ?thesis
      proof (cases x)
        case e: (Inl e)
        with True Inr ex "1.prems" tr len show ?thesis
          by (auto simp: get_video_details_loop.simps [of env video_ids i])
      next
        case rr: (Inr response)
        show ?thesis
        proof (cases "response_videos env response video_data")
          case e: (Inl e)
          with True Inr ex rr "1.prems" tr len show ?thesis
            by (auto simp: get_video_details_loop.simps [of env video_ids i])
        next
          case vd: (Inr vd)
          with True Inr ex rr "1.prems"
          have "Call b (VideosList c) r \<in> set (trace (snd (get_video_details_loop env video_ids (i + 50) vd s1)))"
            by (simp add: get_video_details_loop.simps [of env video_ids i])
          from "1.IH" [OF True Inr ex [symmetric] rr vd this] tr len show ?thesis
            by auto
        qed
      qed
    qed
  qed
qed


section \<open>What a run adds to the trace, and the timestamps it returns\<close>

lemma execute_trace:
  "trace (snd (execute env b req s)) = trace s @ [Call b req (fst (api env req (world s)))]"
  by (simp add: execute_def split: prod.splits)

lemma execute_trace':
  "execute env b req s = (r, s1) \<Longrightarrow> trace s1 = trace s @ [Call b req (fst (api env req (world s)))]"
  using execute_trace [of env b req s] by simp

lemma get_channel_id_trace:
  "trace (snd (get_channel_id env handle s)) =
     trace s @ [Call True (SearchChannels handle) (fst (api env (SearchChannels handle) (world s)))]"
  using execute_trace [of env True "SearchChannels handle" s]
  by (auto simp: get_channel_id_def rate_limited_api_call_def split: prod.splits sum.splits)

lemma reraise_logged_trace: "prefix (trace s) (trace (snd (reraise_logged e s)))"
  by (simp add: reraise_logged_def log_event_def)

lemma get_videos_loop_trace:
  assumes "get_videos_loop env ch tok acc s = Some y"
  shows "prefix (trace s) (trace (snd y))"
proof (rule get_videos_loop.raw_induct
    [where P = "\<lambda>env ch tok acc s y. prefix (trace s) (trace (snd y))", OF _ assms])
  fix loop env ch tok acc and s :: "'a state" and y
  assume IH: "\<And>env ch tok acc s y. loop env ch tok acc s = Some y \<Longrightarrow> prefix (trace s) (trace (snd y))"
    and body: "(case rate_limited_api_call env (SearchVideos ch tok) s of
        (Inl e, s1) \<Rightarrow> Some (reraise_logged e s1)
      | (Inr response, s1) \<Rightarrow>
          (case page_ids response of
             Inl e \<Rightarrow> Some (reraise_logged e s1)
           | Inr ids \<Rightarrow>
               (case py_get response ''nextPageToken'' JNull of
                  Inl e \<Rightarrow> Some (reraise_logged e s1)
                | Inr tok \<Rightarrow>
                    if \<not> truthy tok then Some (Inr (acc @ ids), s1)
                    else loop env ch tok (acc @ ids) s1))) = Some y"
  obtain r s1 where call: "rate_limited_api_call env (SearchVideos ch tok) s = (r, s1)"
    by (cases "rate_limited_api_call env (SearchVideos ch tok) s")
  then have p1: "prefix (trace s) (trace s1)"
    by (auto simp: rate_limited_api_call_def dest: execute_trace')
  have p2: "prefix (trace s1) (trace (snd (reraise_logged e s1 :: (error + json list) \<times> 'a state)))" for e
    by (rule reraise_logged_trace)
  from body call have "prefix (trace s1) (trace (snd y))"
    using IH p2
    by (auto split: sum.splits if_splits)
  with p1 show "prefix (trace s) (trace (snd y))"
    by (rule prefix_order.trans)
qed

lemma get_video_details_loop_trace:
  "prefix (trace s) (trace (snd (get_video_details_loop env video_ids i acc s)))"
proof (induction env video_ids i acc s rule: get_video_details_loop.induct)
  case (1 env video_ids i video_data s)
  show ?case
  proof (cases "i < length video_ids")
    case False
    then show ?thesis
      by (simp add: get_video_details_loop.simps [of env video_ids i])
  next
    case True
    show ?thesis
    proof (cases "join_ids (take 50 (drop i video_ids))")
      case (Inl e)
      with True show ?thesis
        by (simp add: get_video_details_loop.simps [of env video_ids i])
    next
      case (Inr chunk)
      obtain x s1 where ex: "execute env False (VideosList chunk) s = (x, s1)"
        by (cases "execute env False (VideosList chunk) s")
      then have tr: "prefix (trace s) (trace s1)"
        by (auto dest: execute_trace')
      show ?thesis
      proof (cases x)
        case e: (Inl e)
        with True Inr ex tr show ?thesis
          by (simp add: get_video_details_loop.simps [of env video_ids i])
      next
        case rr: (Inr response)
        show ?thesis
        proof (cases "response_videos env response video_data")
          case e: (Inl e)
          with True Inr ex rr tr show ?thesis
            by (simp add: get_video_details_loop.simps [of env video_ids i])
        next
          case vd: (Inr vd)
          from "1.IH" [OF True Inr ex [symmetric] rr vd] tr
          have "prefix (trace s) (trace (snd (get_video_details_loop env video_ids (i + 50) vd s1)))"
            by (rule prefix_order.trans [rotated])
          with True Inr ex rr vd show ?thesis
            by (simp add: get_video_details_loop.simps [of env video_ids i])
        qed
      qed
    qed
  qed
qed

lemma get_comments_trace: "prefix (trace s) (trace (snd (get_comments env vid m s)))"
  using execute_trace [of env False "CommentThreadsList vid (min 100 m)" s]
  by (auto simp: get_comments_def comments_try_def log_event_def
           split: prod.splits sum.splits option.splits)

lemma fetch_comments_trace: "prefix (trace s) (trace (snd (fetch_comments env m vids acc s)))"
proof (induction vids arbitrary: acc s)
  case Nil
  then show ?case by simp
next
  case (Cons vid vids)
  obtain r s1 where g: "get_comments env vid m s = (r, s1)"
    by (cases "get_comments env vid m s")
  with get_comments_trace [of s env vid m] have p: "prefix (trace s) (trace s1)"
    by simp
  show ?case
  proof (cases r)
    case (Inl e)
    with g p show ?thesis by simp
  next
    case (Inr cs)
    with g have "fetch_comments env m (vid # vids) acc s = fetch_comments env m vids (acc @ cs) s1"
      by simp
    moreover from p Cons.IH [of s1 "acc @ cs"]
    have "prefix (trace s) (trace (snd (fetch_comments env m vids (acc @ cs) s1)))"
      by (rule prefix_order.trans)
    ultimately show ?thesis
      by simp
  qed
qed

lemma comments_data_naive:
  "comments_data cs acc = Inr out \<Longrightarrow> \<forall>c\<in>set acc. tzinfo (c_published_date c) = None \<Longrightarrow>
     \<forall>c\<in>set out. tzinfo (c_published_date c) = None"
proof (induction cs arbitrary: acc)
  case Nil
  then show ?case by simp
next
  case (Cons c cs)
  from Cons.prems(1) obtain c' where
    "comments_data cs (acc @ [c'\<lparr>c_published_date := (c_published_date c')\<lparr>tzinfo := None\<rparr>\<rparr>]) = Inr out"
    by (auto simp: bind_err_Inr_iff)
  from Cons.IH [OF this] Cons.prems(2) show ?case
    by simp
qed

lemma naive_videos_naive:
  "naive_videos vs = Inr out \<Longrightarrow> \<forall>v\<in>set out. tzinfo (published_date v) = None"
  by (auto simp: naive_videos_def split: if_splits)

lemma fetch_data_naive:
  assumes "fetch_data env url m s = Some (Inr (videos, comments), s')"
  shows "(\<forall>v\<in>set videos. tzinfo (published_date v) = None)
       \<and> (\<forall>c\<in>set comments. tzinfo (c_published_date c) = None)"
proof -
  from assms obtain craw vs where "comments_data craw [] = Inr comments" "naive_videos vs = Inr videos"
    by (auto simp: fetch_data_def bind_err_Inr_iff split: sum.splits prod.splits option.splits)
  then show ?thesis
    using comments_data_naive [of craw "[]" comments] naive_videos_naive [of vs videos]
    by simp
qed

lemma channel_handle_no_at: "CHR ''@'' \<notin> set url \<Longrightarrow> channel_handle url = url"
  by (simp add: channel_handle_def split_on_no_sep)

lemma fetch_data_invalid_input:
  "\<not> (http_url_ok env url \<and> channel_handle url \<noteq> []) \<Longrightarrow>
     fetch_data env url m s = Some (Inl ValidationError, s)"
  by (cases "channel_handle url") (auto simp: fetch_data_def YouTubeChannelInput_def)

lemma fetch_data_searches_handle:
  assumes "http_url_ok env url" "channel_handle url \<noteq> []"
    and run: "fetch_data env url m s = Some (r, s')"
  shows "prefix (trace s @ [Call True (SearchChannels (channel_handle url))
                             (fst (api env (SearchChannels (channel_handle url)) (world s)))])
           (trace s')"
proof -
  let ?h = "channel_handle url"
  let ?t = "trace s @ [Call True (SearchChannels ?h) (fst (api env (SearchChannels ?h) (world s)))]"
  from assms(1,2) have inp: "YouTubeChannelInput env url ?h = Inr ?h"
    by (cases ?h) (simp_all add: YouTubeChannelInput_def)
  obtain x s1 where g: "get_channel_id env ?h s = (x, s1)"
    by (cases "get_channel_id env ?h s")
  with get_channel_id_trace [of env ?h s] have t1: "trace s1 = ?t"
    by simp
  show ?thesis
  proof (cases x)
    case (Inl e)
    with run inp g t1 show ?thesis
      by (simp add: fetch_data_def)
  next
    case ch: (Inr channel_id)
    from run inp g ch obtain y s2 where v: "get_videos env channel_id s1 = Some (y, s2)"
      by (cases "get_videos env channel_id s1") (auto simp: fetch_data_def)
    then have t2: "prefix ?t (trace s2)"
      using get_videos_loop_trace [of env channel_id JNull "[]" s1 "(y, s2)"] t1
      by (simp add: get_videos_def)
    show ?thesis
    proof (cases y)
      case (Inl e)
      with run inp g ch v t2 show ?thesis
        by (simp add: fetch_data_def)
    next
      case ids: (Inr video_ids)
      obtain z s3 where d: "get_video_details env video_ids s2 = (z, s3)"
        by (cases "get_video_details env video_ids s2")
      with get_video_details_loop_trace [of s2 env video_ids 0 "[]"]
      have "prefix (trace s2) (trace s3)"
        by (simp add: get_video_details_def)
      with t2 have t3: "prefix ?t (trace s3)"
        by (rule prefix_order.trans)
      obtain u s4 where c: "fetch_comments env m video_ids [] s3 = (u, s4)"
        by (cases "fetch_comments env m video_ids [] s3")
      with fetch_comments_trace [of s3 env m video_ids "[]"]
      have "prefix (trace s3) (trace s4)"
        by simp
      with t3 have t4: "prefix ?t (trace s4)"
        by (rule prefix_order.trans)
      from run inp g ch v ids d c have "s' = s3 \<or> s' = s4"
        by (auto simp: fetch_data_def split: sum.splits)
      with t3 t4 show ?thesis
        by blast
    qed
  qed
qed

lemma fetch_data_no_channel:
  assumes "http_url_ok env url" "channel_handle url \<noteq> []"
    and "get_channel_id env (channel_handle url) s = (Inl e, s1)"
  shows "fetch_data env url m s = Some (Inl e, s1)"
  using assms by (cases "channel_handle url") (simp_all add: fetch_data_def YouTubeChannelInput_def)

lemma fetch_data_diverges:
  assumes "http_url_ok env url" "channel_handle url \<noteq> []"
    and "fetch_data env url m s = None"
  shows "\<exists>channel_id s1. get_channel_id env (channel_handle url) s = (Inr channel_id, s1)
           \<and> get_videos env channel_id s1 = None"
proof -
  from assms(1,2) have inp: "YouTubeChannelInput env url (channel_handle url) = Inr (channel_handle url)"
    by (cases "channel_handle url") (simp_all add: YouTubeChannelInput_def)
  with assms(3) show ?thesis
    by (auto simp: fetch_data_def split: prod.splits sum.splits option.splits)
qed

section \<open>Defaults of the counters\<close>

lemma getitem_statistics_JObj:
  "getitem item ''statistics'' = Inr (JObj st) \<Longrightarrow>
     \<exists>kvs. item = JObj kvs \<and> map_of kvs ''statistics'' = Some (JObj st)"
  by (cases item) (auto simp: getitem_def split: option.splits)

lemma parse_video_zero_counter:
  assumes k: "k = ''viewCount'' \<or> k = ''likeCount'' \<or> k = ''commentCount''"
    and st: "getitem item ''statistics'' = Inr (JObj st)"
    and absent: "map_of st k = None"
  shows "parse_video_response env item = parse_video_response env (with_zero_counter k item)"
proof -
  from st obtain kvs where item: "item = JObj kvs" and m: "map_of kvs ''statistics'' = Some (JObj st)"
    by (auto dest: getitem_statistics_JObj)
  let ?st' = "JObj ((k, JInt 0) # st)"
  let ?item' = "JObj ((''statistics'', ?st') # kvs)"
  have w: "with_zero_counter k item = ?item'"
    by (simp add: with_zero_counter_def item m)
  have g: "getitem ?item' ''id'' = getitem item ''id''"
    "getitem ?item' ''snippet'' = getitem item ''snippet''"
    "getitem ?item' ''contentDetails'' = getitem item ''contentDetails''"
    "getitem ?item' ''statistics'' = Inr ?st'"
    "getitem item ''statistics'' = Inr (JObj st)"
    by (simp_all add: getitem_def item m)
  have p: "py_get ?st' ''viewCount'' (JInt 0) = py_get (JObj st) ''viewCount'' (JInt 0)"
    "py_get ?st' ''likeCount'' (JInt 0) = py_get (JObj st) ''likeCount'' (JInt 0)"
    "py_get ?st' ''commentCount'' (JInt 0) = py_get (JObj st) ''commentCount'' (JInt 0)"
    using k absent by (auto simp: py_get_def)
  show ?thesis
    unfolding w parse_video_response_def g bind_err_simps p ..
qed

lemma parse_comment_missing_likes:
  assumes "map_of c ''likeCount'' = None"
    and "getitem src ''id'' = Inr cid"
    and "map_of c ''textDisplay'' = Some txt" "map_of c ''authorDisplayName'' = Some auth"
    and "map_of c ''publishedAt'' = Some pa" "parse_timestamp env pa = Inr pd"
  shows "parse_comment env vid src (JObj c) parent = Inl (KeyError ''likeCount'')"
  using assms by (simp add: parse_comment_def getitem_def)

lemma top_comment_missing_likes:
  assumes "getitem item ''snippet'' = Inr sn" "getitem sn ''topLevelComment'' = Inr tlc"
    and "getitem tlc ''snippet'' = Inr (JObj c)" "map_of c ''likeCount'' = None"
    and "getitem item ''id'' = Inr cid"
    and "map_of c ''textDisplay'' = Some txt" "map_of c ''authorDisplayName'' = Some auth"
    and "map_of c ''publishedAt'' = Some pa" "parse_timestamp env pa = Inr pd"
  shows "parse_comment_response env item vid = Inl (KeyError ''likeCount'')"
  using assms(1-3) parse_comment_missing_likes [OF assms(4-9), of vid "Inr JNull"]
  by (simp add: parse_comment_response_def)

lemma parse_replies_needs_likes:
  "parse_replies env item vid rs acc = Inr cs \<Longrightarrow> r \<in> set rs \<Longrightarrow>
     getitem r ''snippet'' = Inr (JObj c) \<Longrightarrow> map_of c ''likeCount'' \<noteq> None"
proof (induction rs arbitrary: acc)
  case Nil
  then show ?case by simp
next
  case (Cons x rs)
  from Cons.prems(1) obtain sn y where
    x: "getitem x ''snippet'' = Inr sn" "parse_comment env vid x sn (getitem item ''id'') = Inr y"
    and rest: "parse_replies env item vid rs (acc @ [y]) = Inr cs"
    by (auto simp: bind_err_Inr_iff)
  show ?case
  proof (cases "r = x")
    case True
    with x Cons.prems(3) show ?thesis
      by (auto dest: parse_comment_needs_likes)
  next
    case False
    with Cons.prems(2) have "r \<in> set rs" by simp
    from Cons.IH [OF rest this Cons.prems(3)] show ?thesis .
  qed
qed

lemma reply_missing_likes:
  assumes "r \<in> set (thread_replies item)" "getitem r ''snippet'' = Inr (JObj c)"
    and "map_of c ''likeCount'' = None"
  shows "\<exists>e. parse_comment_response env item vid = Inl e"
proof (cases "parse_comment_response env item vid")
  case (Inl e)
  then show ?thesis by blast
next
  case (Inr cs)
  from assms(1) have has: "contains_key ''replies'' item = Inr True"
    by (auto simp: thread_replies_def split: sum.splits bool.splits)
  with Inr obtain t0 rp rc rs where
    rs: "getitem item ''replies'' = Inr rp" "getitem rp ''comments'' = Inr rc" "py_iter rc = Inr rs"
    and pr: "parse_replies env item vid rs [t0] = Inr cs"
    by (auto simp: parse_comment_response_def bind_err_Inr_iff)
  from has rs have "thread_replies item = rs"
    by (simp add: thread_replies_def)
  with assms(1) have "r \<in> set rs" by simp
  from parse_replies_needs_likes [OF pr this assms(2)] assms(3) show ?thesis
    by simp
qed


lemma parse_video_well_formed:
  assumes "getitem item ''id'' = Inr vid"
    and "getitem item ''snippet'' = Inr (JObj sn)"
    and "map_of sn ''title'' = Some ttl"
    and "map_of sn ''publishedAt'' = Some pa" "parse_timestamp env pa = Inr pd"
    and "getitem item ''statistics'' = Inr (JObj st)"
    and "\<And>x. map_of st ''viewCount'' = Some x \<Longrightarrow> py_int env x = Inr views"
    and "\<And>x. map_of st ''likeCount'' = Some x \<Longrightarrow> py_int env x = Inr likes"
    and "\<And>x. map_of st ''commentCount'' = Some x \<Longrightarrow> py_int env x = Inr ncomments"
    and "getitem item ''contentDetails'' = Inr cd" "getitem cd ''duration'' = Inr dur"
    and "map_of sn ''thumbnails'' = Some th" "getitem th ''high'' = Inr hi" "getitem hi ''url'' = Inr u"
  shows "parse_video_response env item =
     Inr \<lparr>video_id = vid, title = ttl,
          description = (case map_of sn ''description'' of None \<Rightarrow> JStr [] | Some d \<Rightarrow> d),
          published_date = pd,
          view_count = (case map_of st ''viewCount'' of None \<Rightarrow> 0 | Some x \<Rightarrow> views),
          like_count = (case map_of st ''likeCount'' of None \<Rightarrow> 0 | Some x \<Rightarrow> likes),
          comment_count = (case map_of st ''commentCount'' of None \<Rightarrow> 0 | Some x \<Rightarrow> ncomments),
          duration = dur, thumbnail_url = u\<rparr>"
proof -
  have v: "bind_err (py_get (JObj st) ''viewCount'' (JInt 0)) (\<lambda>c. bind_err (py_int env c) f)
      = f (case map_of st ''viewCount'' of None \<Rightarrow> 0 | Some x \<Rightarrow> views)" for f :: "int \<Rightarrow> error + video"
    using assms(7) by (cases "map_of st ''viewCount''") (simp_all add: py_get_def py_int_def)
  have l: "bind_err (py_get (JObj st) ''likeCount'' (JInt 0)) (\<lambda>c. bind_err (py_int env c) f)
      = f (case map_of st ''likeCount'' of None \<Rightarrow> 0 | Some x \<Rightarrow> likes)" for f :: "int \<Rightarrow> error + video"
    using assms(8) by (cases "map_of st ''likeCount''") (simp_all add: py_get_def py_int_def)
  have c: "bind_err (py_get (JObj st) ''commentCount'' (JInt 0)) (\<lambda>c. bind_err (py_int env c) f)
      = f (case map_of st ''commentCount'' of None \<Rightarrow> 0 | Some x \<Rightarrow> ncomments)" for f :: "int \<Rightarrow> error + video"
    using assms(9) by (cases "map_of st ''commentCount''") (simp_all add: py_get_def py_int_def)
  have s: "getitem (JObj sn) ''title'' = Inr ttl" "getitem (JObj sn) ''publishedAt'' = Inr pa"
    "getitem (JObj sn) ''thumbnails'' = Inr th"
    "py_get (JObj sn) ''description'' (JStr []) =
       Inr (case map_of sn ''description'' of None \<Rightarrow> JStr [] | Some d \<Rightarrow> d)"
    using assms(3,4,12) by (simp_all add: getitem_def py_get_def split: option.splits)
  show ?thesis
    unfolding parse_video_response_def
    by (simp add: assms(1,2,5,6,10,11,13,14) s v l c)
qed

section \<open>The claims\<close>

text \<open>
  C2. For a positive \<^verbatim>\<open>max_comments\<close>, a list returned by \<^verbatim>\<open>get_comments\<close> has at most
  \<^verbatim>\<open>max_comments\<close> records. When the first thread of the response alone yields at least
  \<^verbatim>\<open>max_comments\<close> records, the result is the first \<^verbatim>\<open>max_comments\<close> of them: the
  replies are cut in the middle of the thread, and the later threads are not looked at.
\<close>

theorem get_comments_at_most_max:
  "(0 < m \<longrightarrow> (\<forall>cs. fst (get_comments env vid m s) = Inr cs \<longrightarrow> int (length cs) \<le> m))
   \<and> (0 < m
        \<and> api env (CommentThreadsList vid (min 100 m)) (world s) = (Inr response, w')
        \<and> bind_err (getitem response ''items'') py_iter = Inr (item # rest)
        \<and> parse_comment_response env item vid = Inr thread
        \<and> m \<le> int (length thread)
      \<longrightarrow> fst (get_comments env vid m s) = Inr (take (nat m) thread))"
  using get_comments_length [of m env vid s] get_comments_first_thread [of env vid m s response w' item rest thread]
  by blast

text \<open>
  Scenario E on the small service: one top-level comment and three replies, a bound of 2.
\<close>

theorem get_comments_at_most_max_witness:
  "api demo_env (CommentThreadsList (JStr (demo_id 1)) (min 100 2)) (world s0)
       = (Inr demo_comments_response, 1)
   \<and> bind_err (getitem demo_comments_response ''items'') py_iter
       = Inr [demo_thread, thread_without_likes]
   \<and> parse_comment_response demo_env demo_thread (JStr (demo_id 1))
       = Inr (demo_thread_comments (Some 0))
   \<and> length (demo_thread_comments (Some 0)) = 4
   \<and> fst (get_comments demo_env (JStr (demo_id 1)) 2 s0)
       = Inr [demo_comment ''t1'' ''first'' 3 JNull (Some 0),
              demo_comment ''t1.a'' ''a reply'' 0 (JStr ''t1'') (Some 0)]"
proof -
  have h1: "api demo_env (CommentThreadsList (JStr (demo_id 1)) (min 100 2)) (world s0)
       = (Inr demo_comments_response, 1)"
    by code_simp
  have h2: "bind_err (getitem demo_comments_response ''items'') py_iter
       = Inr [demo_thread, thread_without_likes]"
    by code_simp
  have h3: "parse_comment_response demo_env demo_thread (JStr (demo_id 1))
       = Inr (demo_thread_comments (Some 0))"
    by code_simp
  have h4: "length (demo_thread_comments (Some 0)) = 4"
    by (simp add: demo_thread_comments_def)
  from get_comments_at_most_max [of 2 demo_env "JStr (demo_id 1)" s0 demo_comments_response 1
      demo_thread "[thread_without_likes]" "demo_thread_comments (Some 0)"] h1 h2 h3 h4
  have "fst (get_comments demo_env (JStr (demo_id 1)) 2 s0) = Inr (take 2 (demo_thread_comments (Some 0)))"
    by simp
  with h1 h2 h3 h4 show ?thesis
    by (simp add: demo_thread_comments_def)
qed

text \<open>
  C3, as the code has it. In a raw video item whose statistics block is a dictionary, each
  of the counters \<^verbatim>\<open>viewCount\<close>, \<^verbatim>\<open>likeCount\<close> and \<^verbatim>\<open>commentCount\<close> that is
  absent counts as 0: the item normalises exactly as the same item with that counter present
  and equal to 0; an item whose other fields are present and well formed normalises to the
  record written out below, with 0 for every absent counter; and whenever a record comes
  out, the field of an absent counter is 0. Comment payloads have no such default: when the
  snippet of the top-level comment or of a reply has no \<^verbatim>\<open>likeCount\<close>, normalisation of
  the thread raises, and for a top-level comment whose fields read before it are present
  (with a timestamp that parses) the exception is the \<^verbatim>\<open>KeyError\<close> of \<^verbatim>\<open>likeCount\<close>.
\<close>

theorem video_counters_default_zero:
  "((k = ''viewCount'' \<or> k = ''likeCount'' \<or> k = ''commentCount'')
      \<and> getitem item ''statistics'' = Inr (JObj st) \<and> map_of st k = None
      \<longrightarrow> parse_video_response env item = parse_video_response env (with_zero_counter k item))
   \<and> (getitem item ''id'' = Inr vid
        \<and> getitem item ''snippet'' = Inr (JObj sn)
        \<and> map_of sn ''title'' = Some ttl
        \<and> map_of sn ''publishedAt'' = Some pa \<and> parse_timestamp env pa = Inr pd
        \<and> getitem item ''statistics'' = Inr (JObj st)
        \<and> (\<forall>x. map_of st ''viewCount'' = Some x \<longrightarrow> py_int env x = Inr views)
        \<and> (\<forall>x. map_of st ''likeCount'' = Some x \<longrightarrow> py_int env x = Inr likes)
        \<and> (\<forall>x. map_of st ''commentCount'' = Some x \<longrightarrow> py_int env x = Inr ncomments)
        \<and> getitem item ''contentDetails'' = Inr cd \<and> getitem cd ''duration'' = Inr dur
        \<and> map_of sn ''thumbnails'' = Some th \<and> getitem th ''high'' = Inr hi
        \<and> getitem hi ''url'' = Inr u
      \<longrightarrow> parse_video_response env item =
           Inr \<lparr>video_id = vid, title = ttl,
                description = (case map_of sn ''description'' of None \<Rightarrow> JStr [] | Some d \<Rightarrow> d),
                published_date = pd,
                view_count = (case map_of st ''viewCount'' of None \<Rightarrow> 0 | Some x \<Rightarrow> views),
                like_count = (case map_of st ''likeCount'' of None \<Rightarrow> 0 | Some x \<Rightarrow> likes),
                comment_count = (case map_of st ''commentCount'' of None \<Rightarrow> 0 | Some x \<Rightarrow> ncomments),
                duration = dur, thumbnail_url = u\<rparr>)
   \<and> (parse_video_response env item = Inr v \<and> getitem item ''statistics'' = Inr (JObj st)
      \<longrightarrow> (map_of st ''viewCount'' = None \<longrightarrow> view_count v = 0)
        \<and> (map_of st ''likeCount'' = None \<longrightarrow> like_count v = 0)
        \<and> (map_of st ''commentCount'' = None \<longrightarrow> comment_count v = 0))
   \<and> (getitem thread ''snippet'' = Inr tsn \<and> getitem tsn ''topLevelComment'' = Inr tlc
        \<and> getitem tlc ''snippet'' = Inr (JObj c) \<and> map_of c ''likeCount'' = None
      \<longrightarrow> (\<exists>e. parse_comment_response env thread video = Inl e)
        \<and> (getitem thread ''id'' = Inr cid
            \<and> map_of c ''textDisplay'' = Some ctext \<and> map_of c ''authorDisplayName'' = Some auth
            \<and> map_of c ''publishedAt'' = Some cpa \<and> parse_timestamp env cpa = Inr cpd
           \<longrightarrow> parse_comment_response env thread video = Inl (KeyError ''likeCount'')))
   \<and> (r \<in> set (thread_replies thread) \<and> getitem r ''snippet'' = Inr (JObj rc)
        \<and> map_of rc ''likeCount'' = None
      \<longrightarrow> (\<exists>e. parse_comment_response env thread video = Inl e))"
proof (intro conjI impI; (elim conjE)?)
  assume "k = ''viewCount'' \<or> k = ''likeCount'' \<or> k = ''commentCount''"
    "getitem item ''statistics'' = Inr (JObj st)" "map_of st k = None"
  then show "parse_video_response env item = parse_video_response env (with_zero_counter k item)"
    by (rule parse_video_zero_counter)
next
  assume "getitem item ''id'' = Inr vid" "getitem item ''snippet'' = Inr (JObj sn)"
    "map_of sn ''title'' = Some ttl" "map_of sn ''publishedAt'' = Some pa"
    "parse_timestamp env pa = Inr pd" "getitem item ''statistics'' = Inr (JObj st)"
    "\<forall>x. map_of st ''viewCount'' = Some x \<longrightarrow> py_int env x = Inr views"
    "\<forall>x. map_of st ''likeCount'' = Some x \<longrightarrow> py_int env x = Inr likes"
    "\<forall>x. map_of st ''commentCount'' = Some x \<longrightarrow> py_int env x = Inr ncomments"
    "getitem item ''contentDetails'' = Inr cd" "getitem cd ''duration'' = Inr dur"
    "map_of sn ''thumbnails'' = Some th" "getitem th ''high'' = Inr hi" "getitem hi ''url'' = Inr u"
  then show "parse_video_response env item =
           Inr \<lparr>video_id = vid, title = ttl,
                description = (case map_of sn ''description'' of None \<Rightarrow> JStr [] | Some d \<Rightarrow> d),
                published_date = pd,
                view_count = (case map_of st ''viewCount'' of None \<Rightarrow> 0 | Some x \<Rightarrow> views),
                like_count = (case map_of st ''likeCount'' of None \<Rightarrow> 0 | Some x \<Rightarrow> likes),
                comment_count = (case map_of st ''commentCount'' of None \<Rightarrow> 0 | Some x \<Rightarrow> ncomments),
                duration = dur, thumbnail_url = u\<rparr>"
    by (intro parse_video_well_formed) blast+
next
  assume a: "parse_video_response env item = Inr v" "getitem item ''statistics'' = Inr (JObj st)"
  from video_defaults [OF a]
  show "map_of st ''viewCount'' = None \<Longrightarrow> view_count v = 0"
    and "map_of st ''likeCount'' = None \<Longrightarrow> like_count v = 0"
    and "map_of st ''commentCount'' = None \<Longrightarrow> comment_count v = 0"
    by blast+
next
  assume "getitem thread ''snippet'' = Inr tsn" "getitem tsn ''topLevelComment'' = Inr tlc"
    "getitem tlc ''snippet'' = Inr (JObj c)" "map_of c ''likeCount'' = None"
  then show "\<exists>e. parse_comment_response env thread video = Inl e"
    by (rule comment_without_likes)
next
  assume "getitem thread ''snippet'' = Inr tsn" "getitem tsn ''topLevelComment'' = Inr tlc"
    "getitem tlc ''snippet'' = Inr (JObj c)" "map_of c ''likeCount'' = None"
    "getitem thread ''id'' = Inr cid" "map_of c ''textDisplay'' = Some ctext"
    "map_of c ''authorDisplayName'' = Some auth" "map_of c ''publishedAt'' = Some cpa"
    "parse_timestamp env cpa = Inr cpd"
  then show "parse_comment_response env thread video = Inl (KeyError ''likeCount'')"
    by (rule top_comment_missing_likes)
next
  assume "r \<in> set (thread_replies thread)" "getitem r ''snippet'' = Inr (JObj rc)"
    "map_of rc ''likeCount'' = None"
  then show "\<exists>e. parse_comment_response env thread video = Inl e"
    by (rule reply_missing_likes)
qed

text \<open>
  Scenario B on the small service: a video item without \<^verbatim>\<open>likeCount\<close>, a thread whose
  top-level comment has none, and a thread with a reply that has none.
\<close>

theorem video_counters_default_zero_witness:
  "getitem (video_item (demo_id 0)) ''statistics''
       = Inr (JObj [(''viewCount'', JStr ''1200''), (''commentCount'', JStr ''4'')])
   \<and> map_of [(''viewCount'', JStr ''1200''), (''commentCount'', JStr ''4'')] ''likeCount'' = None
   \<and> parse_video_response demo_env (video_item (demo_id 0)) = Inr (demo_video 0 (Some 0))
   \<and> parse_video_response demo_env (with_zero_counter ''likeCount'' (video_item (demo_id 0)))
       = Inr (demo_video 0 (Some 0))
   \<and> like_count (demo_video 0 (Some 0)) = 0
   \<and> getitem top_without_likes ''likeCount'' = Inl (KeyError ''likeCount'')
   \<and> parse_comment_response demo_env thread_without_likes (JStr (demo_id 1))
       = Inl (KeyError ''likeCount'')
   \<and> thread_replies thread_reply_without_likes
       = [demo_reply ''t3.a'', JObj [(''id'', JStr ''t3.b''), (''snippet'', top_without_likes)]]
   \<and> (\<exists>e. parse_comment_response demo_env thread_reply_without_likes (JStr (demo_id 1)) = Inl e)"
proof -
  let ?item = "video_item (demo_id 0)"
  let ?st = "[(''viewCount'', JStr ''1200''), (''commentCount'', JStr ''4'')]"
  let ?hi = "JObj [(''url'', JStr ''https://i.example/hq.jpg'')]"
  let ?th = "JObj [(''high'', ?hi)]"
  let ?sn = "[(''title'', JStr ''A title''), (''publishedAt'', JStr ''2024-05-01T12:30:00Z''),
              (''thumbnails'', ?th)]"
  let ?cd = "JObj [(''duration'', JStr ''PT5M'')]"
  let ?pd = "\<lparr>dt_year = 2024, dt_month = 5, dt_day = 1, dt_hour = 12, dt_minute = 30,
              dt_second = 0, dt_microsecond = 0, tzinfo = Some 0\<rparr>"
  let ?c = "[(''textDisplay'', JStr ''hello''), (''authorDisplayName'', JStr ''someone''),
             (''publishedAt'', JStr ''2024-05-02T08:00:00Z'')]"
  let ?cpd = "\<lparr>dt_year = 2024, dt_month = 5, dt_day = 2, dt_hour = 8, dt_minute = 0,
               dt_second = 0, dt_microsecond = 0, tzinfo = Some 0\<rparr>"
  let ?tlc = "JObj [(''snippet'', top_without_likes)]"
  let ?tsn = "JObj [(''topLevelComment'', ?tlc)]"
  let ?bad = "JObj [(''id'', JStr ''t3.b''), (''snippet'', top_without_likes)]"
  have v1: "getitem ?item ''id'' = Inr (JStr (demo_id 0))"
    and v2: "getitem ?item ''snippet'' = Inr (JObj ?sn)"
    and v3: "parse_timestamp demo_env (JStr ''2024-05-01T12:30:00Z'') = Inr ?pd"
    and v4: "getitem ?item ''statistics'' = Inr (JObj ?st)"
    and v5: "getitem ?item ''contentDetails'' = Inr ?cd"
    and v6: "getitem ?cd ''duration'' = Inr (JStr ''PT5M'')"
    and v7: "getitem ?th ''high'' = Inr ?hi"
    and v8: "getitem ?hi ''url'' = Inr (JStr ''https://i.example/hq.jpg'')"
    by code_simp+
  have i1: "py_int demo_env (JStr ''1200'') = Inr 1200" and i2: "py_int demo_env (JStr ''4'') = Inr 4"
    by code_simp+
  have m: "map_of ?sn ''title'' = Some (JStr ''A title'')"
    "map_of ?sn ''publishedAt'' = Some (JStr ''2024-05-01T12:30:00Z'')"
    "map_of ?sn ''thumbnails'' = Some ?th"
    "map_of ?sn ''description'' = None"
    "map_of ?st ''likeCount'' = None"
    "map_of ?st ''viewCount'' = Some (JStr ''1200'')"
    "map_of ?st ''commentCount'' = Some (JStr ''4'')"
    by simp_all
  have q: "\<forall>x. map_of ?st ''viewCount'' = Some x \<longrightarrow> py_int demo_env x = Inr 1200"
    "\<forall>x. map_of ?st ''likeCount'' = Some x \<longrightarrow> py_int demo_env x = Inr 0"
    "\<forall>x. map_of ?st ''commentCount'' = Some x \<longrightarrow> py_int demo_env x = Inr 4"
    using i1 i2 by simp_all
  have t1: "getitem thread_without_likes ''snippet'' = Inr ?tsn"
    and t2: "getitem ?tsn ''topLevelComment'' = Inr ?tlc"
    and t3: "getitem ?tlc ''snippet'' = Inr (JObj ?c)"
    and t4: "getitem thread_without_likes ''id'' = Inr (JStr ''t2'')"
    and t5: "parse_timestamp demo_env (JStr ''2024-05-02T08:00:00Z'') = Inr ?cpd"
    and t6: "getitem top_without_likes ''likeCount'' = Inl (KeyError ''likeCount'')"
    by code_simp+
  have n: "map_of ?c ''likeCount'' = None" "map_of ?c ''textDisplay'' = Some (JStr ''hello'')"
    "map_of ?c ''authorDisplayName'' = Some (JStr ''someone'')"
    "map_of ?c ''publishedAt'' = Some (JStr ''2024-05-02T08:00:00Z'')"
    by simp_all
  have r1: "thread_replies thread_reply_without_likes = [demo_reply ''t3.a'', ?bad]"
    and r2: "getitem ?bad ''snippet'' = Inr (JObj ?c)"
    by code_simp+
  note T = video_counters_default_zero [where env = demo_env and k = "''likeCount''" and item = ?item
      and st = ?st and vid = "JStr (demo_id 0)" and sn = ?sn and ttl = "JStr ''A title''"
      and pa = "JStr ''2024-05-01T12:30:00Z''" and pd = ?pd and views = 1200 and likes = 0
      and ncomments = 4 and cd = ?cd and dur = "JStr ''PT5M''" and th = ?th and hi = ?hi
      and u = "JStr ''https://i.example/hq.jpg''" and v = "demo_video 0 (Some 0)"
      and thread = thread_without_likes and tsn = ?tsn and tlc = ?tlc and c = ?c
      and video = "JStr (demo_id 1)" and cid = "JStr ''t2''" and ctext = "JStr ''hello''"
      and auth = "JStr ''someone''" and cpa = "JStr ''2024-05-02T08:00:00Z''" and cpd = ?cpd
      and r = ?bad and rc = ?c]
  note R = video_counters_default_zero [where env = demo_env and k = "''likeCount''" and item = ?item
      and st = ?st and vid = "JStr (demo_id 0)" and sn = ?sn and ttl = "JStr ''A title''"
      and pa = "JStr ''2024-05-01T12:30:00Z''" and pd = ?pd and views = 1200 and likes = 0
      and ncomments = 4 and cd = ?cd and dur = "JStr ''PT5M''" and th = ?th and hi = ?hi
      and u = "JStr ''https://i.example/hq.jpg''" and v = "demo_video 0 (Some 0)"
      and thread = thread_reply_without_likes and tsn = ?tsn and tlc = ?tlc and c = ?c
      and video = "JStr (demo_id 1)" and cid = "JStr ''t3''" and ctext = "JStr ''hello''"
      and auth = "JStr ''someone''" and cpa = "JStr ''2024-05-02T08:00:00Z''" and cpd = ?cpd
      and r = ?bad and rc = ?c]
  from T v1 v2 m(1,2) v3 v4 q v5 v6 m(3) v7 v8
  have a0: "parse_video_response demo_env ?item =
           Inr \<lparr>video_id = JStr (demo_id 0), title = JStr ''A title'',
                description = (case map_of ?sn ''description'' of None \<Rightarrow> JStr [] | Some d \<Rightarrow> d),
                published_date = ?pd,
                view_count = (case map_of ?st ''viewCount'' of None \<Rightarrow> 0 | Some x \<Rightarrow> 1200),
                like_count = (case map_of ?st ''likeCount'' of None \<Rightarrow> 0 | Some x \<Rightarrow> 0),
                comment_count = (case map_of ?st ''commentCount'' of None \<Rightarrow> 0 | Some x \<Rightarrow> 4),
                duration = JStr ''PT5M'', thumbnail_url = JStr ''https://i.example/hq.jpg''\<rparr>"
    by blast
  then have a: "parse_video_response demo_env ?item = Inr (demo_video 0 (Some 0))"
    by (simp add: demo_video_def)
  from T v4 m(5)
  have "parse_video_response demo_env ?item
      = parse_video_response demo_env (with_zero_counter ''likeCount'' ?item)"
    by blast
  with a have b: "parse_video_response demo_env (with_zero_counter ''likeCount'' ?item)
      = Inr (demo_video 0 (Some 0))"
    by simp
  from T a v4 m(5) have c: "like_count (demo_video 0 (Some 0)) = 0"
    by blast
  from T t1 t2 t3 t4 t5 n
  have d: "parse_comment_response demo_env thread_without_likes (JStr (demo_id 1)) = Inl (KeyError ''likeCount'')"
    by blast
  from r1 have r3: "?bad \<in> set (thread_replies thread_reply_without_likes)"
    by simp
  from R r3 r2 n(1)
  have e: "\<exists>e. parse_comment_response demo_env thread_reply_without_likes (JStr (demo_id 1)) = Inl e"
    by blast
  from v4 m(5) a b c t6 d r1 e show ?thesis
    by (intro conjI)
qed

text \<open>
  C3 as stated fails for comments: with \<^verbatim>\<open>likeCount\<close> absent from a comment payload and
  every other field present, the result is not a record with a like count of 0 but the
  exception of the missing key, while the same thread with \<^verbatim>\<open>likeCount\<close> equal to 0
  gives the record.
\<close>

theorem comment_like_count_has_no_default:
  "getitem top_without_likes ''likeCount'' = Inl (KeyError ''likeCount'')
   \<and> parse_comment_response demo_env thread_without_likes (JStr (demo_id 1))
       = Inl (KeyError ''likeCount'')
   \<and> parse_comment_response demo_env thread_with_zero_likes (JStr (demo_id 1))
       = Inr [demo_comment ''t2'' ''hello'' 0 JNull (Some 0)]"
  by code_simp

text \<open>
  C4. When the comment-thread request for a video fails with an \<^verbatim>\<open>HttpError\<close>,
  \<^verbatim>\<open>get_comments\<close> returns the empty list and leaves one warning in the log after the one
  request; the loop of the assembler then goes on with the remaining videos, the comments
  gathered so far unchanged. No \<^verbatim>\<open>HttpError\<close> ever leaves \<^verbatim>\<open>get_comments\<close>.
\<close>

theorem get_comments_isolates_http_error:
  "(api env (CommentThreadsList vid (min 100 m)) (world s) = (Inl (HttpError msg), w') \<longrightarrow>
      get_comments env vid m s =
        (Inr [], s\<lparr>world := w', trace := trace s @
           [Call False (CommentThreadsList vid (min 100 m)) (Inl (HttpError msg)),
            LogWarning vid (HttpError msg)]\<rparr>)
      \<and> fetch_comments env m (vid # rest) acc s =
          fetch_comments env m rest acc (s\<lparr>world := w', trace := trace s @
           [Call False (CommentThreadsList vid (min 100 m)) (Inl (HttpError msg)),
            LogWarning vid (HttpError msg)]\<rparr>))
   \<and> (\<forall>e. fst (get_comments env vid m s) = Inl e \<longrightarrow> \<not> is_http e)"
proof (intro conjI impI allI)
  assume a: "api env (CommentThreadsList vid (min 100 m)) (world s) = (Inl (HttpError msg), w')"
  from get_comments_http_error [OF a]
  show g: "get_comments env vid m s =
        (Inr [], s\<lparr>world := w', trace := trace s @
           [Call False (CommentThreadsList vid (min 100 m)) (Inl (HttpError msg)),
            LogWarning vid (HttpError msg)]\<rparr>)" .
  show "fetch_comments env m (vid # rest) acc s =
          fetch_comments env m rest acc (s\<lparr>world := w', trace := trace s @
           [Call False (CommentThreadsList vid (min 100 m)) (Inl (HttpError msg)),
            LogWarning vid (HttpError msg)]\<rparr>)"
    by (simp add: g)
next
  fix e assume "fst (get_comments env vid m s) = Inl e"
  then show "\<not> is_http e" by (rule get_comments_no_http_error)
qed

text \<open>
  On the small service the first video has its comments disabled and the second has not.
\<close>

theorem get_comments_isolates_http_error_witness:
  "api demo_env (CommentThreadsList (JStr (demo_id 0)) (min 100 2)) (world s0)
       = (Inl (HttpError ''commentsDisabled''), 1)
   \<and> get_comments demo_env (JStr (demo_id 0)) 2 s0 =
        (Inr [], \<lparr>world = 1, trace =
           [Call False (CommentThreadsList (JStr (demo_id 0)) 2) (Inl (HttpError ''commentsDisabled'')),
            LogWarning (JStr (demo_id 0)) (HttpError ''commentsDisabled'')]\<rparr>)
   \<and> fst (fetch_comments demo_env 2 [JStr (demo_id 0), JStr (demo_id 1)] [] s0) =
        Inr [demo_comment ''t1'' ''first'' 3 JNull (Some 0),
             demo_comment ''t1.a'' ''a reply'' 0 (JStr ''t1'') (Some 0)]"
proof -
  let ?s1 = "\<lparr>world = 1, trace =
           [Call False (CommentThreadsList (JStr (demo_id 0)) 2) (Inl (HttpError ''commentsDisabled'')),
            LogWarning (JStr (demo_id 0)) (HttpError ''commentsDisabled'')]\<rparr> :: nat state"
  have h1: "api demo_env (CommentThreadsList (JStr (demo_id 0)) (min 100 2)) (world s0)
       = (Inl (HttpError ''commentsDisabled''), 1)"
    by code_simp
  have h2: "fst (fetch_comments demo_env 2 [JStr (demo_id 1)] [] ?s1) =
        Inr [demo_comment ''t1'' ''first'' 3 JNull (Some 0),
             demo_comment ''t1.a'' ''a reply'' 0 (JStr ''t1'') (Some 0)]"
    by code_simp
  from get_comments_isolates_http_error [of demo_env "JStr (demo_id 0)" 2 s0 "''commentsDisabled''" 1
      "[JStr (demo_id 1)]" "[]"] h1 h2
  show ?thesis
    by (simp add: s0_def)
qed

text \<open>
  C5. When the service has answered any number of page requests, each with a continuation
  token, and the next page request fails, \<^verbatim>\<open>get_videos\<close> returns that error and no list.
  The failed request is the last one sent: nothing is retried. An \<^verbatim>\<open>HttpError\<close> is logged
  before it is raised again.
\<close>

theorem get_videos_aborts_on_error:
  assumes "serves env channel_id JNull pages s = Some (tok, s1)"
    and "api env (SearchVideos channel_id tok) (world s1) = (Inl e, w2)"
  shows "get_videos env channel_id s =
     Some (Inl e, s1\<lparr>world := w2, trace := trace s1 @
        Call True (SearchVideos channel_id tok) (Inl e) # (if is_http e then [LogError e] else [])\<rparr>)"
  using assms by (rule get_videos_aborts)

text \<open>On the small service: a first page of two videos, then a failure.\<close>

theorem get_videos_aborts_on_error_witness:
  "serves demo_env (JStr ''UCbroken'') JNull [([JStr (demo_id 0), JStr (demo_id 1)], JStr ''P2'')] s0
     = Some (JStr ''P2'',
         \<lparr>world = 1, trace = [Call True (SearchVideos (JStr ''UCbroken'') JNull)
                                 (Inr (search_page [0, 1] (JStr ''P2'')))]\<rparr>)
   \<and> api demo_env (SearchVideos (JStr ''UCbroken'') (JStr ''P2'')) 1 = (Inl (HttpError ''backendError''), 2)
   \<and> get_videos demo_env (JStr ''UCbroken'') s0 =
       Some (Inl (HttpError ''backendError''),
         \<lparr>world = 2, trace =
            [Call True (SearchVideos (JStr ''UCbroken'') JNull) (Inr (search_page [0, 1] (JStr ''P2''))),
             Call True (SearchVideos (JStr ''UCbroken'') (JStr ''P2'')) (Inl (HttpError ''backendError'')),
             LogError (HttpError ''backendError'')]\<rparr>)"
proof -
  let ?s1 = "\<lparr>world = 1, trace = [Call True (SearchVideos (JStr ''UCbroken'') JNull)
                                 (Inr (search_page [0, 1] (JStr ''P2'')))]\<rparr> :: nat state"
  have h1: "serves demo_env (JStr ''UCbroken'') JNull [([JStr (demo_id 0), JStr (demo_id 1)], JStr ''P2'')] s0
     = Some (JStr ''P2'', ?s1)"
    by code_simp
  have h2: "api demo_env (SearchVideos (JStr ''UCbroken'') (JStr ''P2'')) (world ?s1)
     = (Inl (HttpError ''backendError''), 2)"
    by code_simp
  from get_videos_aborts_on_error [OF h1 h2] h1 h2 show ?thesis
    by simp
qed

text \<open>
  C6. When every page but the last reports a continuation token, \<^verbatim>\<open>get_videos\<close> returns,
  and its result is the identifiers of all pages in page order.
\<close>

theorem get_videos_returns_all_pages:
  assumes "serves env channel_id JNull pages s = Some (tok, s1)"
    and "rate_limited_api_call env (SearchVideos channel_id tok) s1 = (Inr response, s2)"
    and "page_ids response = Inr ids"
    and "py_get response ''nextPageToken'' JNull = Inr last_tok" "\<not> truthy last_tok"
  shows "get_videos env channel_id s = Some (Inr (concat (map fst pages) @ ids), s2)"
  using assms by (rule get_videos_pages)

text \<open>
  Scenario D on the small service: a page of 50 identifiers with a token, then a page of 30
  without one, give the 80 identifiers in order.
\<close>

theorem get_videos_returns_all_pages_witness:
  "serves demo_env (JStr ''UCbig'') JNull [(map (\<lambda>n. JStr (demo_id n)) [0..<50], JStr ''P2'')] s0
     = Some (JStr ''P2'', 
         \<lparr>world = 1, trace = [Call True (SearchVideos (JStr ''UCbig'') JNull)
                                 (Inr (search_page [0..<50] (JStr ''P2'')))]\<rparr>)
   \<and> page_ids (search_page [50..<80] JNull) = Inr (map (\<lambda>n. JStr (demo_id n)) [50..<80])
   \<and> py_get (search_page [50..<80] JNull) ''nextPageToken'' JNull = Inr JNull
   \<and> \<not> truthy JNull
   \<and> map_option fst (get_videos demo_env (JStr ''UCbig'') s0)
        = Some (Inr (map (\<lambda>n. JStr (demo_id n)) [0..<50] @ map (\<lambda>n. JStr (demo_id n)) [50..<80]))
   \<and> length (map (\<lambda>n. JStr (demo_id n)) [0..<50] @ map (\<lambda>n. JStr (demo_id n)) [50..<80]) = 80"
proof -
  let ?s1 = "\<lparr>world = 1, trace = [Call True (SearchVideos (JStr ''UCbig'') JNull)
                                 (Inr (search_page [0..<50] (JStr ''P2'')))]\<rparr> :: nat state"
  let ?s2 = "\<lparr>world = 2, trace = [Call True (SearchVideos (JStr ''UCbig'') JNull)
                                 (Inr (search_page [0..<50] (JStr ''P2''))),
                               Call True (SearchVideos (JStr ''UCbig'') (JStr ''P2''))
                                 (Inr (search_page [50..<80] JNull))]\<rparr> :: nat state"
  have h1: "serves demo_env (JStr ''UCbig'') JNull [(map (\<lambda>n. JStr (demo_id n)) [0..<50], JStr ''P2'')] s0
     = Some (JStr ''P2'', ?s1)"
    by code_simp
  have h2: "rate_limited_api_call demo_env (SearchVideos (JStr ''UCbig'') (JStr ''P2'')) ?s1
     = (Inr (search_page [50..<80] JNull), ?s2)"
    by code_simp
  have h3: "page_ids (search_page [50..<80] JNull) = Inr (map (\<lambda>n. JStr (demo_id n)) [50..<80])"
    by code_simp
  have h4: "py_get (search_page [50..<80] JNull) ''nextPageToken'' JNull = Inr JNull"
    by code_simp
  have h5: "\<not> truthy JNull"
    by (simp add: truthy_def)
  from get_videos_returns_all_pages [OF h1 h2 h3 h4 h5]
  have "map_option fst (get_videos demo_env (JStr ''UCbig'') s0)
        = Some (Inr (map (\<lambda>n. JStr (demo_id n)) [0..<50] @ map (\<lambda>n. JStr (demo_id n)) [50..<80]))"
    by simp
  with h1 h3 h4 h5 show ?thesis
    by simp
qed


text \<open>
  C8. A comment-thread item that normalises gives the top-level comment first, with
  \<^verbatim>\<open>reply_to\<close> null and the identifier of the item, and then one record for each reply of
  the payload, in the order of the payload, each with \<^verbatim>\<open>reply_to\<close> equal to the
  identifier of the top-level comment. Hence in every list returned by \<^verbatim>\<open>get_comments\<close>,
  also a truncated one, a reply comes after a top-level comment of the same list whose
  identifier its \<^verbatim>\<open>reply_to\<close> names.
\<close>

theorem comment_thread_normalization:
  "(parse_comment_response env item vid = Inr cs \<longrightarrow>
      (\<exists>t replies. cs = t # replies
         \<and> reply_to t = JNull
         \<and> getitem item ''id'' = Inr (comment_id t)
         \<and> length replies = length (thread_replies item)
         \<and> (\<forall>r\<in>set replies. reply_to r = comment_id t)
         \<and> map (\<lambda>r. Inr (comment_id r)) replies = map (\<lambda>r. getitem r ''id'') (thread_replies item)))
   \<and> (fst (get_comments env vid m s) = Inr fetched \<longrightarrow>
        (\<forall>i<length fetched. reply_to (fetched ! i) \<noteq> JNull \<longrightarrow>
           (\<exists>j<i. reply_to (fetched ! j) = JNull \<and> comment_id (fetched ! j) = reply_to (fetched ! i))))"
proof (intro conjI impI)
  assume "parse_comment_response env item vid = Inr cs"
  from parse_comment_response_Inr [OF this]
  show "\<exists>t replies. cs = t # replies
         \<and> reply_to t = JNull
         \<and> getitem item ''id'' = Inr (comment_id t)
         \<and> length replies = length (thread_replies item)
         \<and> (\<forall>r\<in>set replies. reply_to r = comment_id t)
         \<and> map (\<lambda>r. Inr (comment_id r)) replies = map (\<lambda>r. getitem r ''id'') (thread_replies item)"
    by blast
next
  assume "fst (get_comments env vid m s) = Inr fetched"
  then have "parents_before fetched"
    by (rule get_comments_parents)
  then show "\<forall>i<length fetched. reply_to (fetched ! i) \<noteq> JNull \<longrightarrow>
           (\<exists>j<i. reply_to (fetched ! j) = JNull \<and> comment_id (fetched ! j) = reply_to (fetched ! i))"
    by (simp add: parents_before_def)
qed

text \<open>
  Scenario C on the small service, with three replies, and a fetch cut after the second
  reply.
\<close>

theorem comment_thread_normalization_witness:
  "parse_comment_response demo_env demo_thread (JStr (demo_id 1)) =
     Inr [demo_comment ''t1'' ''first'' 3 JNull (Some 0),
          demo_comment ''t1.a'' ''a reply'' 0 (JStr ''t1'') (Some 0),
          demo_comment ''t1.b'' ''a reply'' 0 (JStr ''t1'') (Some 0),
          demo_comment ''t1.c'' ''a reply'' 0 (JStr ''t1'') (Some 0)]
   \<and> thread_replies demo_thread = [demo_reply ''t1.a'', demo_reply ''t1.b'', demo_reply ''t1.c'']
   \<and> (\<exists>t replies. demo_thread_comments (Some 0) = t # replies
         \<and> reply_to t = JNull
         \<and> length replies = 3
         \<and> (\<forall>r\<in>set replies. reply_to r = comment_id t))
   \<and> fst (get_comments demo_env (JStr (demo_id 1)) 3 s0) =
       Inr [demo_comment ''t1'' ''first'' 3 JNull (Some 0),
          demo_comment ''t1.a'' ''a reply'' 0 (JStr ''t1'') (Some 0),
          demo_comment ''t1.b'' ''a reply'' 0 (JStr ''t1'') (Some 0)]
   \<and> reply_to (take 3 (demo_thread_comments (Some 0)) ! 2) = JStr ''t1''
   \<and> (\<exists>j<2. reply_to (take 3 (demo_thread_comments (Some 0)) ! j) = JNull
          \<and> comment_id (take 3 (demo_thread_comments (Some 0)) ! j) = JStr ''t1'')"
proof -
  let ?f = "take 3 (demo_thread_comments (Some 0))"
  have h1: "parse_comment_response demo_env demo_thread (JStr (demo_id 1)) = Inr (demo_thread_comments (Some 0))"
    by code_simp
  have h2: "fst (get_comments demo_env (JStr (demo_id 1)) 3 s0) = Inr ?f"
    by code_simp
  have h3: "thread_replies demo_thread = [demo_reply ''t1.a'', demo_reply ''t1.b'', demo_reply ''t1.c'']"
    by code_simp
  have h4: "2 < length ?f" "reply_to (?f ! 2) = JStr ''t1''"
    by (simp_all add: demo_thread_comments_def demo_comment_def)
  from comment_thread_normalization [of demo_env demo_thread "JStr (demo_id 1)" "demo_thread_comments (Some 0)"
      3 s0 ?f] h1 h2 h3
  have a: "\<exists>t replies. demo_thread_comments (Some 0) = t # replies
         \<and> reply_to t = JNull
         \<and> length replies = 3
         \<and> (\<forall>r\<in>set replies. reply_to r = comment_id t)"
    and b: "\<forall>i<length ?f. reply_to (?f ! i) \<noteq> JNull \<longrightarrow>
           (\<exists>j<i. reply_to (?f ! j) = JNull \<and> comment_id (?f ! j) = reply_to (?f ! i))"
    by auto
  from b h4 have c: "\<exists>j<2. reply_to (?f ! j) = JNull \<and> comment_id (?f ! j) = JStr ''t1''"
    by (metis json.distinct(5))
  from h1 have h1': "parse_comment_response demo_env demo_thread (JStr (demo_id 1)) =
     Inr [demo_comment ''t1'' ''first'' 3 JNull (Some 0),
          demo_comment ''t1.a'' ''a reply'' 0 (JStr ''t1'') (Some 0),
          demo_comment ''t1.b'' ''a reply'' 0 (JStr ''t1'') (Some 0),
          demo_comment ''t1.c'' ''a reply'' 0 (JStr ''t1'') (Some 0)]"
    by (simp add: demo_thread_comments_def)
  from h2 have h2': "fst (get_comments demo_env (JStr (demo_id 1)) 3 s0) =
       Inr [demo_comment ''t1'' ''first'' 3 JNull (Some 0),
          demo_comment ''t1.a'' ''a reply'' 0 (JStr ''t1'') (Some 0),
          demo_comment ''t1.b'' ''a reply'' 0 (JStr ''t1'') (Some 0)]"
    by (simp add: demo_thread_comments_def)
  from h1' h3 a h2' h4(2) c show ?thesis
    by (intro conjI)
qed

text \<open>
  C7. When \<^verbatim>\<open>get_video_details\<close> returns, the identifiers were strings, the requests it
  sent are the details requests for the consecutive chunks of 50 of the list, one per chunk
  and in order, \<open>\<lceil>N/50\<rceil>\<close> of them, none naming more than 50 identifiers, and the result
  is the videos of the responses, concatenated in the order of the chunks. Whatever the
  outcome, no details request it sends names more than 50 identifiers.
\<close>

theorem get_video_details_batches:
  "(get_video_details env video_ids s = (Inr vs, s') \<longrightarrow>
      (\<exists>strs rs. video_ids = map JStr strs
         \<and> concat (consecutive_chunks 50 strs) = strs
         \<and> (\<forall>c\<in>set (consecutive_chunks 50 strs). length c \<le> 50)
         \<and> length (consecutive_chunks 50 strs) = (length video_ids + 49) div 50
         \<and> length rs = (length video_ids + 49) div 50
         \<and> trace s' = trace s @
              map (\<lambda>(c, r). Call False (VideosList c) (Inr r)) (zip (consecutive_chunks 50 strs) rs)
         \<and> vs = concat (map (videos_in env) rs)))
   \<and> (\<forall>b c r. Call b (VideosList c) r \<in> set (trace (snd (get_video_details env video_ids s)))
          \<longrightarrow> Call b (VideosList c) r \<in> set (trace s) \<or> length c \<le> 50)"
proof (intro conjI impI allI)
  assume "get_video_details env video_ids s = (Inr vs, s')"
  then have "get_video_details_loop env video_ids 0 [] s = (Inr vs, s')"
    by (simp add: get_video_details_def)
  from get_video_details_loop_Inr [OF this] obtain strs rs where
    h: "video_ids = map JStr strs" "length rs = length (consecutive_chunks 50 strs)"
       "trace s' = trace s @
              map (\<lambda>(c, r). Call False (VideosList c) (Inr r)) (zip (consecutive_chunks 50 strs) rs)"
       "vs = concat (map (videos_in env) rs)"
    by auto
  have l: "length (consecutive_chunks 50 strs) = (length video_ids + 49) div 50"
    using h(1) by (simp add: length_consecutive_chunks)
  have c: "concat (consecutive_chunks 50 strs) = strs"
    by (simp add: concat_consecutive_chunks)
  have b: "\<forall>c\<in>set (consecutive_chunks 50 strs). length c \<le> 50"
    by (auto dest: consecutive_chunks_bound)
  from h l c b show "\<exists>strs rs. video_ids = map JStr strs
         \<and> concat (consecutive_chunks 50 strs) = strs
         \<and> (\<forall>c\<in>set (consecutive_chunks 50 strs). length c \<le> 50)
         \<and> length (consecutive_chunks 50 strs) = (length video_ids + 49) div 50
         \<and> length rs = (length video_ids + 49) div 50
         \<and> trace s' = trace s @
              map (\<lambda>(c, r). Call False (VideosList c) (Inr r)) (zip (consecutive_chunks 50 strs) rs)
         \<and> vs = concat (map (videos_in env) rs)"
    by (intro exI [of _ strs] exI [of _ rs]) simp
next
  fix b c r
  assume "Call b (VideosList c) r \<in> set (trace (snd (get_video_details env video_ids s)))"
  then show "Call b (VideosList c) r \<in> set (trace s) \<or> length c \<le> 50"
    unfolding get_video_details_def
    using get_video_details_loop_requests [of b c r env video_ids 0 "[]" s] by blast
qed

text \<open>On the small service, 51 identifiers go out as a batch of 50 and a batch of 1.\<close>

theorem get_video_details_batches_witness:
  "fst (get_video_details demo_env (demo_ids 51) s0) = Inr [demo_video 0 (Some 0), demo_video 1 (Some 0), demo_video 50 (Some 0)]
   \<and> length (demo_ids 51) = 51
   \<and> requested_sizes (trace (snd (get_video_details demo_env (demo_ids 51) s0))) = [50, 1]
   \<and> (\<exists>strs rs. demo_ids 51 = map JStr strs
         \<and> concat (consecutive_chunks 50 strs) = strs
         \<and> (\<forall>c\<in>set (consecutive_chunks 50 strs). length c \<le> 50)
         \<and> length (consecutive_chunks 50 strs) = 2
         \<and> length rs = 2
         \<and> trace (snd (get_video_details demo_env (demo_ids 51) s0)) =
              map (\<lambda>(c, r). Call False (VideosList c) (Inr r)) (zip (consecutive_chunks 50 strs) rs)
         \<and> [demo_video 0 (Some 0), demo_video 1 (Some 0), demo_video 50 (Some 0)] = concat (map (videos_in demo_env) rs))"
proof -
  let ?X = "get_video_details demo_env (demo_ids 51) s0"
  have h1: "fst ?X = Inr [demo_video 0 (Some 0), demo_video 1 (Some 0), demo_video 50 (Some 0)]"
    by code_simp
  have h2: "requested_sizes (trace (snd ?X)) = [50, 1]"
    by code_simp
  have h3: "length (demo_ids 51) = 51"
    by (simp add: demo_ids_def)
  from h1 have h4: "?X = (Inr [demo_video 0 (Some 0), demo_video 1 (Some 0), demo_video 50 (Some 0)], snd ?X)"
    by (metis prod.collapse)
  from get_video_details_batches [of demo_env "demo_ids 51" s0
      "[demo_video 0 (Some 0), demo_video 1 (Some 0), demo_video 50 (Some 0)]" "snd ?X"] h4 h3
  have "\<exists>strs rs. demo_ids 51 = map JStr strs
         \<and> concat (consecutive_chunks 50 strs) = strs
         \<and> (\<forall>c\<in>set (consecutive_chunks 50 strs). length c \<le> 50)
         \<and> length (consecutive_chunks 50 strs) = 2
         \<and> length rs = 2
         \<and> trace (snd ?X) =
              map (\<lambda>(c, r). Call False (VideosList c) (Inr r)) (zip (consecutive_chunks 50 strs) rs)
         \<and> [demo_video 0 (Some 0), demo_video 1 (Some 0), demo_video 50 (Some 0)] = concat (map (videos_in demo_env) rs)"
    by (simp add: s0_def)
  with h1 h2 h3 show ?thesis
    by blast
qed


text \<open>
  C9. A timestamp that ends in \<^verbatim>\<open>Z\<close> parses to the same value as the same timestamp
  ending in \<^verbatim>\<open>+00:00\<close>, whatever precedes the marker and whatever
  \<^verbatim>\<open>fromisoformat\<close> accepts; and every \<^verbatim>\<open>published_date\<close> in the two collections that
  \<^verbatim>\<open>fetch_data\<close> returns has no \<^verbatim>\<open>tzinfo\<close>.
\<close>

theorem published_dates_naive:
  "parse_timestamp env (JStr (t @ ''Z'')) = parse_timestamp env (JStr (t @ ''+00:00''))
   \<and> (fetch_data env channel_url max_comments s = Some (Inr (videos, comments), s') \<longrightarrow>
        (\<forall>v\<in>set videos. tzinfo (published_date v) = None)
        \<and> (\<forall>c\<in>set comments. tzinfo (c_published_date c) = None))"
  using parse_timestamp_Z [of env t] fetch_data_naive [of env channel_url max_comments s videos comments s']
  by blast

text \<open>A whole run on the small service: two videos, the comments of the second cut at 2.\<close>

theorem published_dates_naive_witness:
  "parse_timestamp demo_env (JStr ''2024-05-01T12:30:00Z'')
     = Inr \<lparr>dt_year = 2024, dt_month = 5, dt_day = 1, dt_hour = 12, dt_minute = 30,
            dt_second = 0, dt_microsecond = 0, tzinfo = Some 0\<rparr>
   \<and> parse_timestamp demo_env (JStr ''2024-05-01T12:30:00+00:00'')
     = Inr \<lparr>dt_year = 2024, dt_month = 5, dt_day = 1, dt_hour = 12, dt_minute = 30,
            dt_second = 0, dt_microsecond = 0, tzinfo = Some 0\<rparr>
   \<and> map_option fst (fetch_data demo_env ''https://www.youtube.com/@demo'' 2 s0)
     = Some (Inr ([demo_video 0 None, demo_video 1 None],
                  [demo_comment ''t1'' ''first'' 3 JNull None,
                   demo_comment ''t1.a'' ''a reply'' 0 (JStr ''t1'') None]))
   \<and> map (\<lambda>v. tzinfo (published_date v)) [demo_video 0 None, demo_video 1 None] = [None, None]
   \<and> map (\<lambda>c. tzinfo (c_published_date c))
        [demo_comment ''t1'' ''first'' 3 JNull None,
         demo_comment ''t1.a'' ''a reply'' 0 (JStr ''t1'') None] = [None, None]"
proof -
  let ?X = "fetch_data demo_env ''https://www.youtube.com/@demo'' 2 s0"
  let ?vs = "[demo_video 0 None, demo_video 1 None]"
  let ?cs = "[demo_comment ''t1'' ''first'' 3 JNull None,
              demo_comment ''t1.a'' ''a reply'' 0 (JStr ''t1'') None]"
  have h1: "map_option fst ?X = Some (Inr (?vs, ?cs))"
    by code_simp
  then obtain s' where h2: "?X = Some (Inr (?vs, ?cs), s')"
    by (cases ?X) auto
  have h3: "parse_timestamp demo_env (JStr ''2024-05-01T12:30:00+00:00'')
     = Inr \<lparr>dt_year = 2024, dt_month = 5, dt_day = 1, dt_hour = 12, dt_minute = 30,
            dt_second = 0, dt_microsecond = 0, tzinfo = Some 0\<rparr>"
    by code_simp
  from published_dates_naive [of demo_env "''2024-05-01T12:30:00''" "''https://www.youtube.com/@demo''" 2 s0
      ?vs ?cs s'] h2 h3
  have "parse_timestamp demo_env (JStr ''2024-05-01T12:30:00Z'')
     = Inr \<lparr>dt_year = 2024, dt_month = 5, dt_day = 1, dt_hour = 12, dt_minute = 30,
            dt_second = 0, dt_microsecond = 0, tzinfo = Some 0\<rparr>"
    and "map (\<lambda>v. tzinfo (published_date v)) ?vs = [None, None]"
    and "map (\<lambda>c. tzinfo (c_published_date c)) ?cs = [None, None]"
    by simp_all
  with h1 h3 show ?thesis
    by blast
qed

text \<open>
  C10. The handle is what follows the last \<^verbatim>\<open>@\<close> of the channel URL, and the whole URL
  when it has no \<^verbatim>\<open>@\<close>; computing it raises nothing. \<^verbatim>\<open>fetch_data\<close> resolves the
  channel with this handle, for every URL: when the URL fails the \<^verbatim>\<open>HttpUrl\<close> check or
  the handle is empty, the input model is refused before any request; otherwise the input
  model is built, a failure of the channel search for the handle is the outcome of the run,
  every run that returns has that search as its first request, and a run that never returns
  has found the channel by that search and loops in the page requests.
\<close>

theorem channel_handle_after_last_at:
  "CHR ''@'' \<notin> set (channel_handle channel_url)
   \<and> (CHR ''@'' \<in> set channel_url \<longrightarrow>
        (\<exists>pre. channel_url = pre @ CHR ''@'' # channel_handle channel_url))
   \<and> (CHR ''@'' \<notin> set channel_url \<longrightarrow> channel_handle channel_url = channel_url)
   \<and> (\<not> (http_url_ok env channel_url \<and> channel_handle channel_url \<noteq> []) \<longrightarrow>
        fetch_data env channel_url max_comments s = Some (Inl ValidationError, s))
   \<and> (http_url_ok env channel_url \<and> channel_handle channel_url \<noteq> [] \<longrightarrow>
        YouTubeChannelInput env channel_url (channel_handle channel_url)
          = Inr (channel_handle channel_url)
        \<and> (\<forall>e s1. get_channel_id env (channel_handle channel_url) s = (Inl e, s1) \<longrightarrow>
              fetch_data env channel_url max_comments s = Some (Inl e, s1))
        \<and> (\<forall>r s'. fetch_data env channel_url max_comments s = Some (r, s') \<longrightarrow>
              prefix (trace s @ [Call True (SearchChannels (channel_handle channel_url))
                                  (fst (api env (SearchChannels (channel_handle channel_url)) (world s)))])
                     (trace s'))
        \<and> (fetch_data env channel_url max_comments s = None \<longrightarrow>
              (\<exists>channel_id s1.
                  get_channel_id env (channel_handle channel_url) s = (Inr channel_id, s1)
                  \<and> get_videos env channel_id s1 = None)))"
proof (intro conjI impI allI; (elim conjE)?)
  show "CHR ''@'' \<notin> set (channel_handle channel_url)"
    using split_on_last [of "CHR ''@''" channel_url] by (simp add: channel_handle_def)
next
  assume "CHR ''@'' \<in> set channel_url"
  then show "\<exists>pre. channel_url = pre @ CHR ''@'' # channel_handle channel_url"
    using split_on_last [of "CHR ''@''" channel_url] by (simp add: channel_handle_def)
next
  assume "CHR ''@'' \<notin> set channel_url"
  then show "channel_handle channel_url = channel_url"
    by (rule channel_handle_no_at)
next
  assume "\<not> (http_url_ok env channel_url \<and> channel_handle channel_url \<noteq> [])"
  then show "fetch_data env channel_url max_comments s = Some (Inl ValidationError, s)"
    by (rule fetch_data_invalid_input)
next
  assume "http_url_ok env channel_url" "channel_handle channel_url \<noteq> []"
  then show "YouTubeChannelInput env channel_url (channel_handle channel_url)
          = Inr (channel_handle channel_url)"
    by (cases "channel_handle channel_url") (simp_all add: YouTubeChannelInput_def)
next
  fix e s1
  assume "http_url_ok env channel_url" "channel_handle channel_url \<noteq> []"
    "get_channel_id env (channel_handle channel_url) s = (Inl e, s1)"
  then show "fetch_data env channel_url max_comments s = Some (Inl e, s1)"
    by (rule fetch_data_no_channel)
next
  fix r s'
  assume "http_url_ok env channel_url" "channel_handle channel_url \<noteq> []"
    "fetch_data env channel_url max_comments s = Some (r, s')"
  then show "prefix (trace s @ [Call True (SearchChannels (channel_handle channel_url))
                                  (fst (api env (SearchChannels (channel_handle channel_url)) (world s)))])
                     (trace s')"
    by (rule fetch_data_searches_handle)
next
  assume "http_url_ok env channel_url" "channel_handle channel_url \<noteq> []"
    "fetch_data env channel_url max_comments s = None"
  then show "\<exists>channel_id s1.
                  get_channel_id env (channel_handle channel_url) s = (Inr channel_id, s1)
                  \<and> get_videos env channel_id s1 = None"
    by (rule fetch_data_diverges)
qed

text \<open>
  On the small service: a URL with \<^verbatim>\<open>@\<close> is searched for by what follows it, a URL
  without \<^verbatim>\<open>@\<close> as it is, and a URL ending in \<^verbatim>\<open>@\<close> is refused.
\<close>

theorem channel_handle_after_last_at_witness:
  "channel_handle ''https://www.youtube.com/@nobody'' = ''nobody''
   \<and> channel_handle ''https://user@www.youtube.com/@demo'' = ''demo''
   \<and> (\<exists>pre. ''https://www.youtube.com/@nobody'' = pre @ CHR ''@'' # ''nobody'')
   \<and> http_url_ok demo_env ''https://www.youtube.com/@nobody''
   \<and> fetch_data demo_env ''https://www.youtube.com/@nobody'' 2 s0 =
       Some (Inl (ValueError ''nobody''),
             \<lparr>world = 1, trace = [Call True (SearchChannels ''nobody'')
                                     (Inr (JObj [(''items'', JList [])]))]\<rparr>)
   \<and> prefix [Call True (SearchChannels ''nobody'') (Inr (JObj [(''items'', JList [])]))]
        (trace \<lparr>world = 1 :: nat, trace = [Call True (SearchChannels ''nobody'')
                                     (Inr (JObj [(''items'', JList [])]))]\<rparr>)
   \<and> CHR ''@'' \<notin> set ''https://www.youtube.com/demo''
   \<and> channel_handle ''https://www.youtube.com/demo'' = ''https://www.youtube.com/demo''
   \<and> fetch_data demo_env ''https://www.youtube.com/demo'' 2 s0 =
       Some (Inl (ValueError ''https://www.youtube.com/demo''),
             \<lparr>world = 1, trace = [Call True (SearchChannels ''https://www.youtube.com/demo'')
                                     (Inr (JObj [(''items'', JList [])]))]\<rparr>)
   \<and> channel_handle ''https://www.youtube.com/@'' = []
   \<and> fetch_data demo_env ''https://www.youtube.com/@'' 2 s0 = Some (Inl ValidationError, s0)"
proof -
  let ?a = "''https://www.youtube.com/@nobody''"
  let ?u = "''https://www.youtube.com/demo''"
  let ?z = "''https://www.youtube.com/@''"
  let ?none = "Inr (JObj [(''items'', JList [])]) :: error + json"
  let ?sa = "\<lparr>world = 1, trace = [Call True (SearchChannels ''nobody'') ?none]\<rparr> :: nat state"
  let ?su = "\<lparr>world = 1, trace = [Call True (SearchChannels ?u) ?none]\<rparr> :: nat state"
  have a1: "CHR ''@'' \<in> set ?a"
    by simp
  have a2: "http_url_ok demo_env ?a" and u2: "http_url_ok demo_env ?u"
    by code_simp+
  have a3: "channel_handle ?a = ''nobody''" and a4: "channel_handle ''https://user@www.youtube.com/@demo'' = ''demo''"
    and z1: "channel_handle ?z = []"
    by code_simp+
  have a5: "get_channel_id demo_env ''nobody'' s0 = (Inl (ValueError ''nobody''), ?sa)"
    and u5: "get_channel_id demo_env ?u s0 = (Inl (ValueError ?u), ?su)"
    by code_simp+
  have u1: "CHR ''@'' \<notin> set ?u"
    by simp
  have ts0: "trace s0 = []"
    by (simp add: s0_def)
  have api_a: "fst (api demo_env (SearchChannels ''nobody'') (world s0)) = ?none"
    by code_simp
  have ne: "''nobody'' \<noteq> []" "?u \<noteq> []"
    by simp_all
  note A = channel_handle_after_last_at [of ?a demo_env 2 s0]
  from A a1 have "\<exists>pre. ?a = pre @ CHR ''@'' # channel_handle ?a"
    by blast
  then have p: "\<exists>pre. ?a = pre @ CHR ''@'' # ''nobody''"
    by (simp only: a3)
  note A' = A [unfolded a3]
  from A' a2 ne(1) a5 have fa: "fetch_data demo_env ?a 2 s0 = Some (Inl (ValueError ''nobody''), ?sa)"
    by blast
  from A' a2 ne(1) fa
  have "prefix (trace s0 @ [Call True (SearchChannels ''nobody'')
                             (fst (api demo_env (SearchChannels ''nobody'') (world s0)))])
          (trace ?sa)"
    by blast
  then have pa: "prefix [Call True (SearchChannels ''nobody'') ?none] (trace ?sa)"
    by (simp only: api_a ts0 append_Nil)
  note U = channel_handle_after_last_at [of ?u demo_env 2 s0]
  from U u1 have uh: "channel_handle ?u = ?u"
    by blast
  note U' = U [unfolded uh]
  from U' u2 ne(2) u5 have fu: "fetch_data demo_env ?u 2 s0 = Some (Inl (ValueError ?u), ?su)"
    by blast
  have nz: "\<not> (http_url_ok demo_env ?z \<and> channel_handle ?z \<noteq> [])"
    by (simp add: z1)
  from channel_handle_after_last_at [of ?z demo_env 2 s0] nz
  have fz: "fetch_data demo_env ?z 2 s0 = Some (Inl ValidationError, s0)"
    by blast
  from a3 a4 p a2 fa pa u1 uh fu z1 fz show ?thesis
    by (intro conjI)
qed

text \<open>
  C1 fails on the code. The requests of \<^verbatim>\<open>get_comments\<close> and of
  \<^verbatim>\<open>get_video_details\<close> are executed directly, not through
  \<^verbatim>\<open>rate_limited_api_call\<close>, while the request of \<^verbatim>\<open>get_channel_id\<close> (and the page
  requests of \<^verbatim>\<open>get_videos\<close>) go through it.
\<close>

theorem comment_request_bypasses_rate_limiter:
  "trace (snd (get_comments demo_env (JStr (demo_id 1)) 2 s0))
     = [Call False (CommentThreadsList (JStr (demo_id 1)) 2) (Inr demo_comments_response)]
   \<and> trace (snd (get_video_details demo_env [JStr (demo_id 0)] s0))
     = [Call False (VideosList [demo_id 0]) (Inr (JObj [(''items'', JList [video_item (demo_id 0)])]))]
   \<and> trace (snd (get_channel_id demo_env ''demo'' s0))
     = [Call True (SearchChannels ''demo'')
         (Inr (JObj [(''items'', JList [JObj [(''id'', JObj [(''channelId'', JStr ''UCdemo'')])]])]))]"
  by code_simp


end
